theory Spec2Isabelle
  imports Complex_Main "HOL-Library.Word" "HOL-Library.Log_Nat"
begin

section \<open>JavaScript values\<close>

subsection \<open>Strings\<close>

text \<open>
  A JavaScript string is a sequence of 16-bit code units; \<open>length\<close> counts code units and
  \<open>===\<close> on strings compares them unit by unit. String literals of the source are written
  \<open>lit ''...''\<close>.
\<close>

type_synonym code_unit = "16 word"

type_synonym jsstring = "code_unit list"

definition lit :: "string \<Rightarrow> jsstring" where
  "lit s = map of_char s"

subsection \<open>Numbers\<close>

text \<open>
  A Number is NaN, an infinity, or a finite double, held as the rational it denotes (the
  two zeros are one value: nothing in the source tells them apart). \<open>to_double\<close> is the
  rounding every arithmetic operation ends with: to the nearest double, ties to the even
  significand, and to an infinity where the rounded magnitude reaches \<open>2 ^ 1024\<close>.
  \<open>binade q\<close> is the binary exponent of \<open>q\<close>, not below that of the subnormal numbers.
\<close>

datatype jsnum = NaN | PosInf | NegInf | Finite rat

definition round_half_even :: "rat \<Rightarrow> int" where
  "round_half_even x =
     (let f = \<lfloor>x\<rfloor>; d = x - of_int f
      in if d < 1 / 2 then f else if 1 / 2 < d then f + 1 else if even f then f else f + 1)"

definition binade :: "rat \<Rightarrow> int" where
  "binade q = max (- 1022) (bitlen \<lfloor>\<bar>q\<bar> * 2 ^ 1022\<rfloor> - 1023)"

definition round_magnitude :: "rat \<Rightarrow> rat" where
  "round_magnitude q =
     (let u = 2 powi (binade q - 52) in of_int (round_half_even (\<bar>q\<bar> / u)) * u)"

definition to_double :: "rat \<Rightarrow> jsnum" where
  "to_double q =
     (let r = round_magnitude q
      in if 2 ^ 1024 \<le> r then (if q < 0 then NegInf else PosInf) else Finite (sgn q * r))"

text \<open>The rationals that are doubles: those the rounding leaves alone.\<close>

definition is_double :: "rat \<Rightarrow> bool" where
  "is_double q = (to_double q = Finite q)"

text \<open>\<open>x + y\<close> and \<open>x * y\<close> on Numbers (IEEE 754 binary64).\<close>

fun js_add :: "jsnum \<Rightarrow> jsnum \<Rightarrow> jsnum" where
  "js_add (Finite x) (Finite y) = to_double (x + y)"
| "js_add NaN _ = NaN"
| "js_add _ NaN = NaN"
| "js_add PosInf NegInf = NaN"
| "js_add NegInf PosInf = NaN"
| "js_add PosInf _ = PosInf"
| "js_add _ PosInf = PosInf"
| "js_add NegInf _ = NegInf"
| "js_add _ NegInf = NegInf"

definition js_sign_inf :: "bool \<Rightarrow> jsnum" where
  "js_sign_inf negative = (if negative then NegInf else PosInf)"

fun js_mul :: "jsnum \<Rightarrow> jsnum \<Rightarrow> jsnum" where
  "js_mul (Finite x) (Finite y) = to_double (x * y)"
| "js_mul NaN _ = NaN"
| "js_mul _ NaN = NaN"
| "js_mul PosInf (Finite y) = (if y = 0 then NaN else js_sign_inf (y < 0))"
| "js_mul NegInf (Finite y) = (if y = 0 then NaN else js_sign_inf (0 < y))"
| "js_mul (Finite x) PosInf = (if x = 0 then NaN else js_sign_inf (x < 0))"
| "js_mul (Finite x) NegInf = (if x = 0 then NaN else js_sign_inf (0 < x))"
| "js_mul PosInf PosInf = PosInf"
| "js_mul NegInf NegInf = PosInf"
| "js_mul PosInf NegInf = NegInf"
| "js_mul NegInf PosInf = NegInf"

text \<open>\<open>x < 0\<close> and \<open>x === y\<close> on Numbers: every comparison with NaN is false.\<close>

fun js_lt_zero :: "jsnum \<Rightarrow> bool" where
  "js_lt_zero (Finite x) = (x < 0)"
| "js_lt_zero NegInf = True"
| "js_lt_zero _ = False"

fun js_num_eq :: "jsnum \<Rightarrow> jsnum \<Rightarrow> bool" where
  "js_num_eq NaN _ = False"
| "js_num_eq _ NaN = False"
| "js_num_eq x y = (x = y)"

fun isFinite_num :: "jsnum \<Rightarrow> bool" where
  "isFinite_num (Finite _) = True"
| "isFinite_num _ = False"

text \<open>
  \<open>Number(x.toFixed(2))\<close>. For a finite \<open>x\<close> of magnitude below \<open>10 ^ 21\<close>, \<open>toFixed(2)\<close>
  takes the integer \<open>n\<close> with \<open>n / 100\<close> closest to the magnitude, the larger of two, and
  prints the sign and \<open>n / 100\<close> digit by digit; \<open>Number\<close> reads the decimal back as the
  nearest double. From \<open>10 ^ 21\<close> on, and for NaN and the infinities, \<open>toFixed\<close> prints
  the number as \<open>String\<close> does, and \<open>Number\<close> reads the same number back.
\<close>

definition toFixed2_hundredths :: "rat \<Rightarrow> int" where
  "toFixed2_hundredths x = \<lfloor>100 * x + 1 / 2\<rfloor>"

definition Number_toFixed2 :: "jsnum \<Rightarrow> jsnum" where
  "Number_toFixed2 x =
     (case x of
        Finite q \<Rightarrow>
          if 10 ^ 21 \<le> \<bar>q\<bar> then Finite q
          else to_double (sgn q * (of_int (toFixed2_hundredths \<bar>q\<bar>) / 100))
      | _ \<Rightarrow> x)"

text \<open>
  The rounding the specification names: to 2 decimal places, a half upwards, of a
  non-negative amount.
\<close>

definition round_2dp :: "rat \<Rightarrow> rat" where
  "round_2dp x = of_int \<lfloor>x * 100 + 1 / 2\<rfloor> / 100"

subsection \<open>Errors\<close>

text \<open>
  \<open>ValidationError\<close> carries its message. \<open>ForeignError\<close> is any other exception: the
  only place one can come from is the string conversion of a value that is not a string.
\<close>

datatype error = ValidationError jsstring | ForeignError

section \<open>Currency\<close>

record Currency =
  code :: jsstring

definition VALID_CODES :: "jsstring list" where
  "VALID_CODES = [lit ''USD'', lit ''EUR'', lit ''GBP'', lit ''JPY'']"

definition Currency_ctor :: "jsstring \<Rightarrow> error + Currency" where
  "Currency_ctor c =
     (if c \<notin> set VALID_CODES
      then Inl (ValidationError (lit ''Invalid currency code: '' @ c))
      else Inr \<lparr>code = c\<rparr>)"

section \<open>Money, identifiers and the values a caller can pass\<close>

record Money =
  amount :: jsnum
  currency :: Currency

text \<open>
  The identifier constructors are documented to take the UUID string; the stored value is
  that string.
\<close>

record SupplierId =
  sid_value :: jsstring

record ProductId =
  pid_value :: jsstring

text \<open>
  What a caller can pass where the source tests a type at run time: the primitives, the
  instances of the classes of this repository, and any other object (\<open>JObject\<close>, told
  apart by a number).
\<close>

datatype jsval =
    JUndefined
  | JNull
  | JBool bool
  | JNum jsnum
  | JStr jsstring
  | JSupplierId SupplierId
  | JProductId ProductId
  | JCurrency Currency
  | JMoney Money
  | JObject nat

text \<open>\<open>!v\<close>: the negation of \<open>ToBoolean v\<close>, a boolean primitive.\<close>

fun ToBoolean :: "jsval \<Rightarrow> bool" where
  "ToBoolean JUndefined = False"
| "ToBoolean JNull = False"
| "ToBoolean (JBool b) = b"
| "ToBoolean (JNum n) = (n \<noteq> NaN \<and> n \<noteq> Finite 0)"
| "ToBoolean (JStr s) = (s \<noteq> [])"
| "ToBoolean _ = True"

definition js_not :: "jsval \<Rightarrow> jsval" where
  "js_not v = JBool (\<not> ToBoolean v)"

fun instanceof_Money :: "jsval \<Rightarrow> bool" where
  "instanceof_Money (JMoney _) = True"
| "instanceof_Money _ = False"

text \<open>A destructured parameter with the default \<open>null\<close>: only \<open>undefined\<close> takes it.\<close>

definition default_null :: "jsval \<Rightarrow> jsval" where
  "default_null v = (if v = JUndefined then JNull else v)"

subsection \<open>Currency.equals\<close>

definition Currency_equals :: "Currency \<Rightarrow> jsval \<Rightarrow> bool" where
  "Currency_equals this other =
     (case other of JCurrency c \<Rightarrow> code this = code c | _ \<Rightarrow> False)"

subsection \<open>Money\<close>

text \<open>The object a Money is constructed from; a property left out is \<open>undefined\<close>.\<close>

record Money_params =
  arg_amount :: jsval
  arg_currency :: jsval

definition Money_ctor :: "Money_params \<Rightarrow> error + Money" where
  "Money_ctor p =
     (case arg_amount p of
        JNum a \<Rightarrow>
          if \<not> isFinite_num a \<or> js_lt_zero a
          then Inl (ValidationError (lit ''Amount must be a positive number''))
          else (case arg_currency p of
                  JCurrency c \<Rightarrow> Inr \<lparr>amount = Number_toFixed2 a, currency = c\<rparr>
                | _ \<Rightarrow> Inl (ValidationError (lit ''Currency must be an instance of Currency'')))
      | _ \<Rightarrow> Inl (ValidationError (lit ''Amount must be a positive number'')))"

definition Money_add :: "Money \<Rightarrow> jsval \<Rightarrow> error + Money" where
  "Money_add this other =
     (case other of
        JMoney m \<Rightarrow>
          if \<not> Currency_equals (currency this) (JCurrency (currency m))
          then Inl (ValidationError (lit ''Can only add Money with the same currency''))
          else Money_ctor \<lparr>arg_amount = JNum (js_add (amount this) (amount m)),
                           arg_currency = JCurrency (currency this)\<rparr>
      | _ \<Rightarrow> Inl (ValidationError (lit ''Can only add Money with the same currency'')))"

definition Money_multiply :: "Money \<Rightarrow> jsval \<Rightarrow> error + Money" where
  "Money_multiply this multiplier =
     (case multiplier of
        JNum k \<Rightarrow>
          if \<not> isFinite_num k \<or> js_lt_zero k
          then Inl (ValidationError (lit ''Multiplier must be a positive number''))
          else Money_ctor \<lparr>arg_amount = JNum (js_mul (amount this) k),
                           arg_currency = JCurrency (currency this)\<rparr>
      | _ \<Rightarrow> Inl (ValidationError (lit ''Multiplier must be a positive number'')))"

definition Money_equals :: "Money \<Rightarrow> jsval \<Rightarrow> bool" where
  "Money_equals this other =
     (case other of
        JMoney m \<Rightarrow>
          js_num_eq (amount this) (amount m) \<and> Currency_equals (currency this) (JCurrency (currency m))
      | _ \<Rightarrow> False)"

section \<open>Identifiers\<close>

text \<open>
  \<open>uuid.js\<close> hands both of its functions to the \<open>uuid\<close> package, which is not part of
  this repository: the package's \<open>validate\<close> is the parameter \<open>uuidValidate\<close>, and the
  string a call of its \<open>v4\<close> returns is the parameter \<open>uuidv4\<close>.
\<close>

definition isValidUUID :: "(jsstring \<Rightarrow> bool) \<Rightarrow> jsstring \<Rightarrow> bool" where
  "isValidUUID uuidValidate v = uuidValidate v"

definition generateUUID :: "jsstring \<Rightarrow> jsstring" where
  "generateUUID uuidv4 = uuidv4"

definition SupplierId_ctor :: "(jsstring \<Rightarrow> bool) \<Rightarrow> jsstring \<Rightarrow> error + SupplierId" where
  "SupplierId_ctor uuidValidate v =
     (if \<not> isValidUUID uuidValidate v
      then Inl (ValidationError (lit ''Invalid SupplierId: '' @ v))
      else Inr \<lparr>sid_value = v\<rparr>)"

definition SupplierId_equals :: "SupplierId \<Rightarrow> jsval \<Rightarrow> bool" where
  "SupplierId_equals this other =
     (case other of JSupplierId s \<Rightarrow> sid_value this = sid_value s | _ \<Rightarrow> False)"

definition SupplierId_generate :: "(jsstring \<Rightarrow> bool) \<Rightarrow> jsstring \<Rightarrow> error + SupplierId" where
  "SupplierId_generate uuidValidate uuidv4 = SupplierId_ctor uuidValidate (generateUUID uuidv4)"

definition ProductId_ctor :: "(jsstring \<Rightarrow> bool) \<Rightarrow> jsstring \<Rightarrow> error + ProductId" where
  "ProductId_ctor uuidValidate v =
     (if \<not> isValidUUID uuidValidate v
      then Inl (ValidationError (lit ''Invalid ProductId format: '' @ v @ lit ''. Must be a valid UUID.''))
      else Inr \<lparr>pid_value = v\<rparr>)"

definition ProductId_generate :: "(jsstring \<Rightarrow> bool) \<Rightarrow> jsstring \<Rightarrow> error + ProductId" where
  "ProductId_generate uuidValidate uuidv4 = ProductId_ctor uuidValidate (generateUUID uuidv4)"

definition ProductId_equals :: "ProductId \<Rightarrow> jsval \<Rightarrow> bool" where
  "ProductId_equals this other =
     (case other of JProductId p \<Rightarrow> pid_value this = pid_value p | _ \<Rightarrow> False)"

subsection \<open>The UUID primitive\<close>

text \<open>
  Modelled from the spec: the \<open>uuid\<close> package, whose \<open>v4\<close> and \<open>validate\<close> the two
  functions of \<open>uuid.js\<close> return, is not in the sources. The spec calls it a
  UUID-generation/validation primitive, \<open>generateUUID() -> UUID\<close> producing a freshly
  generated random UUID and \<open>isValidUUID(string) -> bool\<close> testing that a string is a
  syntactically valid UUID. The definitions of this subsection are that primitive; the
  random octets a call of the generator draws are its argument \<open>rnds\<close>.
\<close>

type_synonym octet = "8 word"

text \<open>Modelled from the spec: the lower-case hexadecimal digit of a number below 16.\<close>

definition hex_digit :: "nat \<Rightarrow> code_unit" where
  "hex_digit n = of_char (''0123456789abcdef'' ! (n mod 16))"

text \<open>Modelled from the spec: the two hexadecimal digits of an octet.\<close>

definition octet_hex :: "nat \<Rightarrow> jsstring" where
  "octet_hex b = [hex_digit (b div 16), hex_digit (b mod 16)]"

text \<open>
  Modelled from the spec: the 16 octets of a random (version 4) UUID. Octet 6 has its
  four high bits set to the version, 4, and octet 8 its two high bits to the variant,
  binary 10; every other bit is random.
\<close>

definition uuid_v4_octet :: "(nat \<Rightarrow> octet) \<Rightarrow> nat \<Rightarrow> nat" where
  "uuid_v4_octet rnds i =
     (if i = 6 then 64 + unat (rnds 6) mod 16
      else if i = 8 then 128 + unat (rnds 8) mod 64
      else unat (rnds i))"

text \<open>
  Modelled from the spec: the freshly generated random UUID, the 16 octets printed in
  groups of 8, 4, 4, 4 and 12 hexadecimal digits with hyphens between.
\<close>

definition uuid_v4 :: "(nat \<Rightarrow> octet) \<Rightarrow> jsstring" where
  "uuid_v4 rnds =
     (let h = (\<lambda>i. octet_hex (uuid_v4_octet rnds i))
      in h 0 @ h 1 @ h 2 @ h 3 @ lit ''-'' @ h 4 @ h 5 @ lit ''-'' @ h 6 @ h 7 @ lit ''-''
         @ h 8 @ h 9 @ lit ''-'' @ h 10 @ h 11 @ h 12 @ h 13 @ h 14 @ h 15)"

text \<open>
  Modelled from the spec: the shape of a UUID string, 36 characters with hyphens at 8, 13,
  18 and 23, a version character at 14, a variant character at 19, and digits elsewhere.
\<close>

definition uuid_groups ::
  "(code_unit \<Rightarrow> bool) \<Rightarrow> (code_unit \<Rightarrow> bool) \<Rightarrow> (code_unit \<Rightarrow> bool) \<Rightarrow> jsstring \<Rightarrow> bool" where
  "uuid_groups digit version variant s =
     (length s = 36
      \<and> list_all digit (take 8 s) \<and> s ! 8 = of_char CHR ''-''
      \<and> list_all digit (take 4 (drop 9 s)) \<and> s ! 13 = of_char CHR ''-''
      \<and> version (s ! 14) \<and> list_all digit (take 3 (drop 15 s)) \<and> s ! 18 = of_char CHR ''-''
      \<and> variant (s ! 19) \<and> list_all digit (take 3 (drop 20 s)) \<and> s ! 23 = of_char CHR ''-''
      \<and> list_all digit (drop 24 s))"

text \<open>Modelled from the spec: a character class given by its members.\<close>

definition one_of :: "string \<Rightarrow> code_unit \<Rightarrow> bool" where
  "one_of cs c = (c \<in> set (lit cs))"

text \<open>
  Modelled from the spec: a syntactically valid UUID is a string of that shape, in
  hexadecimal digits of either case, with a version digit from 1 to 8 and a variant digit
  8, 9, a or b; or the nil UUID (all zeros); or the max UUID (all f).
\<close>

definition uuid_validate :: "jsstring \<Rightarrow> bool" where
  "uuid_validate s =
     (uuid_groups (one_of ''0123456789abcdefABCDEF'') (one_of ''12345678'') (one_of ''89abAB'') s
      \<or> uuid_groups (one_of ''0'') (one_of ''0'') (one_of ''0'') s
      \<or> uuid_groups (one_of ''fF'') (one_of ''fF'') (one_of ''fF'') s)"

section \<open>Email syntax\<close>

text \<open>
  The regular expression of \<open>isValidEmail\<close> is a sequence of literals and of character
  classes repeated once or more, anchored at both ends. \<open>regex_test\<close> tries every way of
  splitting the string among the items, as the backtracking matcher does.
\<close>

datatype regex_item = OneOrMore "code_unit \<Rightarrow> bool" | Literal code_unit

fun regex_test :: "regex_item list \<Rightarrow> jsstring \<Rightarrow> bool" where
  "regex_test [] s = (s = [])"
| "regex_test (Literal c # rs) [] = False"
| "regex_test (Literal c # rs) (x # xs) = (x = c \<and> regex_test rs xs)"
| "regex_test (OneOrMore P # rs) [] = False"
| "regex_test (OneOrMore P # rs) (x # xs) =
     (P x \<and> (regex_test (OneOrMore P # rs) xs \<or> regex_test rs xs))"

text \<open>The class \<open>\s\<close>: the white space and line terminator code units of ECMAScript.\<close>

definition is_space :: "code_unit \<Rightarrow> bool" where
  "is_space c =
     (c \<in> {0x09, 0x0A, 0x0B, 0x0C, 0x0D, 0x20, 0xA0, 0x1680, 0x2028, 0x2029, 0x202F, 0x205F,
            0x3000, 0xFEFF}
      \<or> (0x2000 \<le> c \<and> c \<le> 0x200A))"

definition not_space_or_at :: "code_unit \<Rightarrow> bool" where
  "not_space_or_at c = (\<not> is_space c \<and> c \<noteq> of_char CHR ''@'')"

definition emailRegex :: "regex_item list" where
  "emailRegex =
     [OneOrMore not_space_or_at, Literal (of_char CHR ''@''),
      OneOrMore not_space_or_at, Literal (of_char CHR ''.''),
      OneOrMore not_space_or_at]"

definition isValidEmail :: "jsstring \<Rightarrow> bool" where
  "isValidEmail email = regex_test emailRegex email"

section \<open>Supplier\<close>

record Supplier =
  supplier_id :: SupplierId
  supplier_name :: jsstring
  supplier_contactEmail :: jsval
  supplier_lastOrderTotalPrice :: jsval

text \<open>The object a Supplier is constructed from; a property left out is \<open>undefined\<close>.\<close>

record Supplier_params =
  arg_id :: jsval
  arg_name :: jsval
  arg_contactEmail :: jsval
  arg_lastOrderTotalPrice :: jsval

text \<open>
  The last guard of the constructor and the guard of the \<open>lastOrderTotalPrice\<close> setter
  are written \<open>!v instanceof Money\<close>, which JavaScript reads as \<open>(!v) instanceof Money\<close>.
\<close>

definition Supplier_ctor :: "Supplier_params \<Rightarrow> error + Supplier" where
  "Supplier_ctor p =
     (let contactEmail = default_null (arg_contactEmail p);
          lastOrderTotalPrice = default_null (arg_lastOrderTotalPrice p)
      in case arg_id p of
           JSupplierId i \<Rightarrow>
             (case arg_name p of
                JStr n \<Rightarrow>
                  if length n < 2 \<or> 100 < length n
                  then Inl (ValidationError (lit ''name must be a string between 2 and 100 characters''))
                  else if contactEmail \<noteq> JNull
                          \<and> (case contactEmail of JStr e \<Rightarrow> \<not> isValidEmail e | _ \<Rightarrow> True)
                  then Inl (ValidationError (lit ''contactEmail must be a valid email address or null''))
                  else if lastOrderTotalPrice \<noteq> JNull \<and> instanceof_Money (js_not lastOrderTotalPrice)
                  then Inl (ValidationError (lit ''lastOrderTotalPrice must be a Money object or null''))
                  else Inr \<lparr>supplier_id = i, supplier_name = n, supplier_contactEmail = contactEmail,
                            supplier_lastOrderTotalPrice = lastOrderTotalPrice\<rparr>
              | _ \<Rightarrow> Inl (ValidationError (lit ''name must be a string between 2 and 100 characters'')))
         | _ \<Rightarrow> Inl (ValidationError (lit ''id must be a Supplier Id of SupplierId'')))"

definition get_id :: "Supplier \<Rightarrow> SupplierId" where
  "get_id this = supplier_id this"

definition get_name :: "Supplier \<Rightarrow> jsstring" where
  "get_name this = supplier_name this"

definition get_contactEmail :: "Supplier \<Rightarrow> jsval" where
  "get_contactEmail this = supplier_contactEmail this"

definition get_lastOrderTotalPrice :: "Supplier \<Rightarrow> jsval" where
  "get_lastOrderTotalPrice this = supplier_lastOrderTotalPrice this"

text \<open>
  A setter returns the object as the call leaves it and the exception it raised, if any.
  \<open>RegExp.test\<close> converts its argument to a string first; the conversion of a value that
  is not a string belongs to the platform and to the value's own \<open>toString\<close>, so it is
  the parameter \<open>ToString\<close>, \<open>None\<close> where it throws.
\<close>

definition regex_subject :: "(jsval \<Rightarrow> jsstring option) \<Rightarrow> jsval \<Rightarrow> jsstring option" where
  "regex_subject ToString v = (case v of JStr s \<Rightarrow> Some s | _ \<Rightarrow> ToString v)"

definition set_contactEmail ::
  "(jsval \<Rightarrow> jsstring option) \<Rightarrow> Supplier \<Rightarrow> jsval \<Rightarrow> Supplier \<times> error option" where
  "set_contactEmail ToString this v =
     (if v = JNull
      then (this, Some (ValidationError (lit ''contactEmail must be a valid email address'')))
      else case regex_subject ToString v of
             None \<Rightarrow> (this, Some ForeignError)
           | Some s \<Rightarrow>
               if \<not> isValidEmail s
               then (this, Some (ValidationError (lit ''contactEmail must be a valid email address'')))
               else (this\<lparr>supplier_contactEmail := v\<rparr>, None))"

definition set_lastOrderTotalPrice :: "Supplier \<Rightarrow> jsval \<Rightarrow> Supplier \<times> error option" where
  "set_lastOrderTotalPrice this v =
     (if instanceof_Money (js_not v)
      then (this, Some (ValidationError (lit ''lastOrderTotalPrice must be a Money object'')))
      else (this\<lparr>supplier_lastOrderTotalPrice := v\<rparr>, None))"

text \<open>
  A caller's sequence of assignments to the two setters, each run on the object the one
  before left, whether it raised or not.
\<close>

datatype setter_call = SetContactEmail jsval | SetLastOrderTotalPrice jsval

fun call_setter :: "(jsval \<Rightarrow> jsstring option) \<Rightarrow> Supplier \<Rightarrow> setter_call \<Rightarrow> Supplier" where
  "call_setter ToString this (SetContactEmail v) = fst (set_contactEmail ToString this v)"
| "call_setter ToString this (SetLastOrderTotalPrice v) = fst (set_lastOrderTotalPrice this v)"

definition call_setters :: "(jsval \<Rightarrow> jsstring option) \<Rightarrow> Supplier \<Rightarrow> setter_call list \<Rightarrow> Supplier" where
  "call_setters ToString this calls = foldl (call_setter ToString) this calls"

section \<open>Facts about rounding to a double\<close>

lemma rhe_lower: "\<lfloor>x\<rfloor> \<le> round_half_even x"
  by (simp add: round_half_even_def Let_def)

lemma rhe_upper: "round_half_even x \<le> \<lfloor>x\<rfloor> + 1"
  by (simp add: round_half_even_def Let_def)

lemma rhe_of_int: "round_half_even (of_int n) = n"
  by (simp add: round_half_even_def Let_def)

lemma rhe_nonneg:
  assumes "0 \<le> x"
  shows "0 \<le> round_half_even x"
proof -
  have "0 \<le> \<lfloor>x\<rfloor>"
    using assms by simp
  thus ?thesis
    using rhe_lower [of x] by linarith
qed

lemma binade_ge: "- 1022 \<le> binade q"
  by (simp add: binade_def)

lemma powi_shift: "(2::rat) powi a * 2 powi b = 2 powi (a + b)"
  by (simp add: power_int_add)

lemma two_powi_nat: "0 \<le> j \<Longrightarrow> (2::rat) powi j = of_int (2 ^ nat j)"
  by (simp add: power_int_def)

lemma binade_le:
  assumes "- 1022 \<le> j" and "\<bar>q\<bar> < 2 powi (j + 1)"
  shows "binade q \<le> j"
proof -
  let ?t = "\<lfloor>\<bar>q\<bar> * 2 ^ 1022\<rfloor>"
  have shift: "j + 1 + 1022 = j + 1023"
    by simp
  have "\<bar>q\<bar> * 2 ^ 1022 < 2 powi (j + 1) * 2 powi 1022"
    using assms(2) by simp
  also have "\<dots> = 2 powi (j + 1 + 1022)"
    by (rule powi_shift)
  also have "\<dots> = 2 powi (j + 1023)"
    by (simp only: shift)
  also have "\<dots> = of_int (2 ^ nat (j + 1023))"
    using assms(1) by (simp add: two_powi_nat)
  finally have "?t < 2 ^ nat (j + 1023)"
    by (simp only: floor_less_iff)
  hence "bitlen ?t \<le> j + 1023"
    using assms(1) by (simp add: bitlen_le_iff_power)
  thus ?thesis
    using assms(1) by (simp add: binade_def)
qed

lemma binade_ge_of:
  assumes "2 powi j \<le> \<bar>q\<bar>"
  shows "j \<le> binade q"
proof (cases "j \<le> - 1022")
  case True
  thus ?thesis by (simp add: binade_def)
next
  case False
  let ?t = "\<lfloor>\<bar>q\<bar> * 2 ^ 1022\<rfloor>"
  have "(of_int (2 ^ nat (j + 1022)) :: rat) = 2 powi (j + 1022)"
    using False by (simp add: two_powi_nat)
  also have "\<dots> = 2 powi j * 2 powi 1022"
    by (rule powi_shift [symmetric])
  also have "\<dots> \<le> \<bar>q\<bar> * 2 ^ 1022"
    using assms by simp
  finally have "2 ^ nat (j + 1022) \<le> ?t"
    by (simp only: le_floor_iff)
  moreover have "nat (j + 1023) - 1 = nat (j + 1022)"
    using False by simp
  ultimately have "j + 1023 \<le> bitlen ?t"
    by (simp add: bitlen_ge_iff_power)
  thus ?thesis
    by (simp add: binade_def)
qed

lemma binade_upper: "\<bar>q\<bar> < 2 powi (binade q + 1)"
proof (rule ccontr)
  assume "\<not> \<bar>q\<bar> < 2 powi (binade q + 1)"
  hence "2 powi (binade q + 1) \<le> \<bar>q\<bar>" by simp
  hence "binade q + 1 \<le> binade q" by (rule binade_ge_of)
  thus False by simp
qed

lemma binade_lower:
  assumes "- 1022 < binade q"
  shows "2 powi (binade q) \<le> \<bar>q\<bar>"
proof (rule ccontr)
  assume "\<not> 2 powi (binade q) \<le> \<bar>q\<bar>"
  hence "\<bar>q\<bar> < 2 powi ((binade q - 1) + 1)" by simp
  moreover have "- 1022 \<le> binade q - 1" using assms by simp
  ultimately have "binade q \<le> binade q - 1" by (rule binade_le [rotated])
  thus False by simp
qed


lemma round_magnitude_nonneg: "0 \<le> round_magnitude q"
proof -
  have "0 \<le> \<bar>q\<bar> / 2 powi (binade q - 52)"
    by simp
  hence "0 \<le> round_half_even (\<bar>q\<bar> / 2 powi (binade q - 52))"
    by (rule rhe_nonneg)
  thus ?thesis
    by (simp add: round_magnitude_def Let_def)
qed

lemma round_magnitude_upper: "round_magnitude q \<le> 2 powi (binade q + 1)"
proof -
  let ?u = "(2::rat) powi (binade q - 52)"
  let ?n = "round_half_even (\<bar>q\<bar> / ?u)"
  have split: "(2::rat) powi (binade q + 1) = 2 powi 53 * ?u"
    using powi_shift [of 53 "binade q - 52"] by (simp add: add.commute)
  have "\<bar>q\<bar> < 2 powi 53 * ?u"
    using binade_upper [of q] by (simp only: split)
  hence "\<bar>q\<bar> / ?u < of_int (2 ^ 53)"
    by (simp add: pos_divide_less_eq)
  hence "\<lfloor>\<bar>q\<bar> / ?u\<rfloor> < 2 ^ 53"
    by (simp only: floor_less_iff)
  hence "?n \<le> 2 ^ 53"
    using rhe_upper [of "\<bar>q\<bar> / ?u"] by linarith
  hence "(of_int ?n :: rat) \<le> of_int (2 ^ 53)"
    by (simp only: of_int_le_iff)
  hence "of_int ?n * ?u \<le> 2 powi 53 * ?u"
    by (simp add: mult_right_mono)
  thus ?thesis
    by (simp only: split round_magnitude_def Let_def)
qed

lemma round_magnitude_lower:
  assumes "- 1022 < binade q"
  shows "2 powi (binade q) \<le> round_magnitude q"
proof -
  let ?u = "(2::rat) powi (binade q - 52)"
  let ?n = "round_half_even (\<bar>q\<bar> / ?u)"
  have split: "(2::rat) powi (binade q) = 2 powi 52 * ?u"
    using powi_shift [of 52 "binade q - 52"] by simp
  have "2 powi 52 * ?u \<le> \<bar>q\<bar>"
    using binade_lower [OF assms] by (simp only: split)
  hence "of_int (2 ^ 52) \<le> \<bar>q\<bar> / ?u"
    by (simp add: pos_le_divide_eq)
  hence "2 ^ 52 \<le> \<lfloor>\<bar>q\<bar> / ?u\<rfloor>"
    by (simp only: le_floor_iff)
  hence "2 ^ 52 \<le> ?n"
    using rhe_lower [of "\<bar>q\<bar> / ?u"] by linarith
  hence "(of_int (2 ^ 52) :: rat) \<le> of_int ?n"
    by (simp only: of_int_le_iff)
  hence "2 powi 52 * ?u \<le> of_int ?n * ?u"
    by (simp add: mult_right_mono)
  thus ?thesis
    by (simp only: split round_magnitude_def Let_def)
qed

lemma to_double_overflow:
  assumes "2 ^ 1024 \<le> q"
  shows "to_double q = PosInf"
proof -
  have q: "(2::rat) powi 1024 \<le> \<bar>q\<bar>"
    using assms by simp
  hence e: "1024 \<le> binade q"
    by (rule binade_ge_of)
  hence "(2::rat) powi 1024 \<le> 2 powi (binade q)"
    by (intro power_int_increasing) simp_all
  also have "\<dots> \<le> round_magnitude q"
    using e by (intro round_magnitude_lower) simp
  finally have "(2::rat) ^ 1024 \<le> round_magnitude q"
    by simp
  moreover have "(0::rat) < 2 ^ 1024"
    by simp
  hence "\<not> q < 0"
    using assms by linarith
  ultimately show ?thesis
    by (simp add: to_double_def Let_def)
qed

lemma to_double_in_range:
  assumes "\<bar>q\<bar> < 2 ^ 1023"
  shows "to_double q = Finite (sgn q * round_magnitude q)"
proof -
  have "\<bar>q\<bar> < 2 powi (1022 + 1)"
    using assms by simp
  hence "binade q \<le> 1022"
    by (intro binade_le) simp_all
  hence "(2::rat) powi (binade q + 1) \<le> 2 powi 1023"
    by (intro power_int_increasing) simp_all
  hence "round_magnitude q \<le> 2 powi 1023"
    using round_magnitude_upper [of q] by linarith
  hence "round_magnitude q < 2 ^ 1024"
    by simp
  thus ?thesis
    by (simp add: to_double_def Let_def)
qed


lemma round_magnitude_exact:
  assumes m: "\<bar>m\<bar> < 2 ^ 53" and k: "- 1074 \<le> k"
  shows "round_magnitude (of_int m * 2 powi k) = \<bar>of_int m * 2 powi k\<bar>"
proof -
  let ?q = "of_int m * (2::rat) powi k"
  let ?e = "binade ?q"
  have absq: "\<bar>?q\<bar> = of_int \<bar>m\<bar> * 2 powi k"
    by (simp add: abs_mult)
  have "(of_int \<bar>m\<bar> :: rat) < of_int (2 ^ 53)"
    using m by (simp only: of_int_less_iff)
  hence "of_int \<bar>m\<bar> * (2::rat) powi k < 2 powi 53 * 2 powi k"
    by (simp add: mult_strict_right_mono)
  also have "\<dots> = 2 powi (k + 52 + 1)"
    using powi_shift [of 53 k] by (simp add: add.commute)
  finally have lt: "of_int \<bar>m\<bar> * (2::rat) powi k < 2 powi (k + 52 + 1)" .
  have "?e \<le> k + 52"
  proof (rule binade_le)
    show "- 1022 \<le> k + 52"
      using k by simp
    show "\<bar>?q\<bar> < 2 powi (k + 52 + 1)"
      using lt by (simp only: absq)
  qed
  then obtain d where d: "k = (?e - 52) + int d"
    by (metis add.commute diff_add_cancel diff_le_eq zero_le_imp_eq_int diff_ge_0_iff_ge add_diff_eq)
  have "(2::rat) powi k = 2 powi (int d) * 2 powi (?e - 52)"
    using powi_shift [of "int d" "?e - 52"] d by (simp add: add.commute)
  hence "\<bar>?q\<bar> / 2 powi (?e - 52) = of_int \<bar>m\<bar> * (2 powi (int d) * 2 powi (?e - 52)) / 2 powi (?e - 52)"
    by (simp only: absq)
  also have "\<dots> = of_int \<bar>m\<bar> * 2 powi (int d)"
    by simp
  also have "\<dots> = of_int (\<bar>m\<bar> * 2 ^ d)"
    by simp
  finally have "\<bar>?q\<bar> / 2 powi (?e - 52) = of_int (\<bar>m\<bar> * 2 ^ d)" .
  hence "of_int (round_half_even (\<bar>?q\<bar> / 2 powi (?e - 52))) * 2 powi (?e - 52)
           = \<bar>?q\<bar> / 2 powi (?e - 52) * 2 powi (?e - 52)"
    by (simp only: rhe_of_int)
  thus ?thesis
    by (simp add: round_magnitude_def Let_def)
qed

lemma to_double_exact:
  assumes m: "\<bar>m\<bar> < 2 ^ 53" and k: "- 1074 \<le> k" and r: "\<bar>of_int m * (2::rat) powi k\<bar> < 2 ^ 1024"
  shows "is_double (of_int m * 2 powi k)"
proof -
  let ?q = "of_int m * (2::rat) powi k"
  have "round_magnitude ?q = \<bar>?q\<bar>"
    using m k by (rule round_magnitude_exact)
  moreover have "\<not> 2 ^ 1024 \<le> \<bar>?q\<bar>"
    using r by simp
  ultimately have "to_double ?q = Finite (sgn ?q * \<bar>?q\<bar>)"
    by (simp only: to_double_def Let_def if_False)
  thus ?thesis
    by (simp only: is_double_def sgn_mult_abs)
qed

lemma is_double_of_int:
  assumes "\<bar>m\<bar> < 2 ^ 53"
  shows "is_double (of_int m)"
proof -
  have "(of_int \<bar>m\<bar> :: rat) < of_int (2 ^ 53)"
    using assms by (simp only: of_int_less_iff)
  also have "(of_int (2 ^ 53) :: rat) < 2 ^ 1024"
    by simp
  finally have "\<bar>of_int m * (2::rat) powi 0\<bar> < 2 ^ 1024"
    by simp
  with assms have "is_double (of_int m * 2 powi 0)"
    by (intro to_double_exact) simp_all
  thus ?thesis
    by simp
qed

lemma round_magnitude_integral:
  assumes "2 ^ 52 \<le> \<bar>q\<bar>"
  shows "round_magnitude q \<in> \<int>"
proof -
  have "(2::rat) powi 52 \<le> \<bar>q\<bar>"
    using assms by simp
  hence "52 \<le> binade q"
    by (rule binade_ge_of)
  hence "(2::rat) powi (binade q - 52) = of_int (2 ^ nat (binade q - 52))"
    by (intro two_powi_nat) simp
  thus ?thesis
    by (simp add: round_magnitude_def Let_def)
qed

lemma double_integral:
  assumes "is_double q" and "2 ^ 52 \<le> \<bar>q\<bar>"
  shows "q \<in> \<int>"
proof -
  have "Finite q = to_double q"
    using assms(1) by (simp add: is_double_def)
  hence "q = sgn q * round_magnitude q"
    by (simp add: to_double_def Let_def split: if_splits)
  moreover have "sgn q \<in> \<int>"
    by (simp add: sgn_if)
  ultimately show ?thesis
    using round_magnitude_integral [OF assms(2)] by (metis Ints_mult)
qed


lemma significand_le:
  "round_half_even (\<bar>q\<bar> / 2 powi (binade q - 52)) \<le> 2 ^ 53"
proof -
  let ?u = "(2::rat) powi (binade q - 52)"
  have split: "(2::rat) powi (binade q + 1) = 2 powi 53 * ?u"
    using powi_shift [of 53 "binade q - 52"] by (simp add: add.commute)
  have "\<bar>q\<bar> < 2 powi 53 * ?u"
    using binade_upper [of q] by (simp only: split)
  hence "\<bar>q\<bar> / ?u < of_int (2 ^ 53)"
    by (simp add: pos_divide_less_eq)
  hence "\<lfloor>\<bar>q\<bar> / ?u\<rfloor> < 2 ^ 53"
    by (simp only: floor_less_iff)
  thus ?thesis
    using rhe_upper [of "\<bar>q\<bar> / ?u"] by linarith
qed

lemma significand_nonneg:
  "0 \<le> round_half_even (\<bar>q\<bar> / 2 powi (binade q - 52))"
  by (rule rhe_nonneg) simp

lemma to_double_repr:
  assumes "to_double q = Finite z"
  shows "\<exists>m k. \<bar>m\<bar> < 2 ^ 53 \<and> - 1074 \<le> k \<and> \<bar>z\<bar> < 2 ^ 1024 \<and> z = of_int m * 2 powi k"
proof -
  let ?k = "binade q - 52"
  let ?n = "round_half_even (\<bar>q\<bar> / 2 powi ?k)"
  have rm: "round_magnitude q = of_int ?n * 2 powi ?k"
    by (simp add: round_magnitude_def Let_def)
  have small: "round_magnitude q < 2 ^ 1024" and z: "z = sgn q * round_magnitude q"
    using assms by (simp_all add: to_double_def Let_def split: if_splits)
  have k: "- 1074 \<le> ?k"
    using binade_ge [of q] by simp
  have n0: "0 \<le> ?n"
    by (rule significand_nonneg)
  obtain s :: int where s: "sgn q = of_int s" and s1: "\<bar>s\<bar> \<le> 1"
  proof (cases "q < 0")
    case True
    hence "sgn q = of_int (- 1)" by simp
    thus ?thesis using that [of "- 1"] by simp
  next
    case False
    show ?thesis
    proof (cases "q = 0")
      case True
      hence "sgn q = of_int 0" by simp
      thus ?thesis using that [of 0] by simp
    next
      case False
      with \<open>\<not> q < 0\<close> have "sgn q = of_int 1" by simp
      thus ?thesis using that [of 1] by simp
    qed
  qed
  have "\<bar>z\<bar> \<le> round_magnitude q"
  proof -
    have "\<bar>z\<bar> = \<bar>of_int s :: rat\<bar> * round_magnitude q"
      using round_magnitude_nonneg [of q] by (simp add: z s abs_mult)
    also have "\<bar>of_int s :: rat\<bar> = of_int \<bar>s\<bar>"
      by simp
    also have "(of_int \<bar>s\<bar> :: rat) \<le> of_int 1"
      using s1 by (simp only: of_int_le_iff)
    hence "of_int \<bar>s\<bar> * round_magnitude q \<le> of_int 1 * round_magnitude q"
      using round_magnitude_nonneg [of q] by (rule mult_right_mono)
    finally show ?thesis
      by simp
  qed
  hence bound: "\<bar>z\<bar> < 2 ^ 1024"
    using small by linarith
  show ?thesis
  proof (cases "?n < 2 ^ 53")
    case True
    have zr: "z = of_int (s * ?n) * 2 powi ?k"
      by (simp add: z s rm)
    have "\<bar>s * ?n\<bar> = \<bar>s\<bar> * ?n"
      using n0 by (simp add: abs_mult)
    also have "\<dots> \<le> 1 * ?n"
      using s1 n0 by (intro mult_right_mono) simp_all
    finally have "\<bar>s * ?n\<bar> < 2 ^ 53"
      using True by simp
    thus ?thesis
      using k bound zr by blast
  next
    case False
    hence n: "?n = 2 ^ 53"
      using significand_le [of q] by linarith
    have "(2::rat) powi 1 * 2 powi ?k = 2 powi (?k + 1)"
      using powi_shift [of 1 ?k] by (simp add: add.commute)
    hence zr: "z = of_int (s * 2 ^ 52) * 2 powi (?k + 1)"
      by (simp add: z s rm n)
    have "\<bar>s * 2 ^ 52\<bar> = \<bar>s\<bar> * 2 ^ 52"
      by (simp add: abs_mult)
    also have "\<dots> \<le> 1 * 2 ^ 52"
      using s1 by (intro mult_right_mono) simp_all
    finally have "\<bar>s * 2 ^ 52\<bar> < 2 ^ 53"
      by simp
    moreover have "- 1074 \<le> ?k + 1"
      using k by simp
    ultimately show ?thesis
      using bound zr by blast
  qed
qed


lemma to_double_idem:
  assumes "to_double q = Finite z"
  shows "is_double z"
proof -
  from to_double_repr [OF assms] obtain m k
    where "\<bar>m\<bar> < 2 ^ 53" and "- 1074 \<le> k" and "\<bar>z\<bar> < 2 ^ 1024" and z: "z = of_int m * 2 powi k"
    by blast
  hence "is_double (of_int m * 2 powi k)"
    by (simp only: z to_double_exact)
  thus ?thesis
    by (simp only: z)
qed

text \<open>
  The doubles are the numbers \<open>m * 2 ^ k\<close> with a significand \<open>m\<close> of at most 53 bits, an
  exponent \<open>k\<close> of at least \<open>- 1074\<close> and a magnitude below \<open>2 ^ 1024\<close>.
\<close>

lemma is_double_iff:
  "is_double q \<longleftrightarrow>
     (\<exists>m k. \<bar>m\<bar> < 2 ^ 53 \<and> - 1074 \<le> k \<and> \<bar>q\<bar> < 2 ^ 1024 \<and> q = of_int m * 2 powi k)"
proof
  assume "is_double q"
  hence "to_double q = Finite q"
    by (simp only: is_double_def)
  thus "\<exists>m k. \<bar>m\<bar> < 2 ^ 53 \<and> - 1074 \<le> k \<and> \<bar>q\<bar> < 2 ^ 1024 \<and> q = of_int m * 2 powi k"
    by (rule to_double_repr)
next
  assume "\<exists>m k. \<bar>m\<bar> < 2 ^ 53 \<and> - 1074 \<le> k \<and> \<bar>q\<bar> < 2 ^ 1024 \<and> q = of_int m * 2 powi k"
  then obtain m k
    where "\<bar>m\<bar> < 2 ^ 53" and "- 1074 \<le> k" and "\<bar>q\<bar> < 2 ^ 1024" and q: "q = of_int m * 2 powi k"
    by blast
  hence "is_double (of_int m * 2 powi k)"
    by (simp only: q to_double_exact)
  thus "is_double q"
    by (simp only: q)
qed

text \<open>The rounding is to a nearest double: it moves a number by at most half a unit in the last place.\<close>

lemma rhe_near: "\<bar>of_int (round_half_even x) - x\<bar> \<le> 1 / 2"
proof -
  have "of_int \<lfloor>x\<rfloor> \<le> x" and "x < of_int \<lfloor>x\<rfloor> + 1"
    by linarith+
  thus ?thesis
    by (auto simp add: round_half_even_def Let_def abs_le_iff)
qed

lemma round_magnitude_near:
  "\<bar>round_magnitude q - \<bar>q\<bar>\<bar> \<le> 2 powi (binade q - 52) / 2"
proof -
  let ?u = "(2::rat) powi (binade q - 52)"
  have "\<bar>of_int (round_half_even (\<bar>q\<bar> / ?u)) - \<bar>q\<bar> / ?u\<bar> * ?u \<le> 1 / 2 * ?u"
    using rhe_near [of "\<bar>q\<bar> / ?u"] by (intro mult_right_mono) simp_all
  moreover have "\<bar>of_int (round_half_even (\<bar>q\<bar> / ?u)) - \<bar>q\<bar> / ?u\<bar> * ?u
                   = \<bar>(of_int (round_half_even (\<bar>q\<bar> / ?u)) - \<bar>q\<bar> / ?u) * ?u\<bar>"
    by (simp add: abs_mult)
  moreover have "(of_int (round_half_even (\<bar>q\<bar> / ?u)) - \<bar>q\<bar> / ?u) * ?u
                   = round_magnitude q - \<bar>q\<bar>"
    by (simp add: round_magnitude_def Let_def left_diff_distrib)
  ultimately show ?thesis
    by simp
qed

lemma to_double_nonneg:
  assumes "0 \<le> q"
  shows "to_double q = PosInf \<or> (\<exists>r. 0 \<le> r \<and> to_double q = Finite r)"
proof (cases "2 ^ 1024 \<le> round_magnitude q")
  case True
  thus ?thesis
    using assms by (simp add: to_double_def Let_def)
next
  case False
  have "0 \<le> sgn q * round_magnitude q"
    using assms round_magnitude_nonneg [of q] by (simp add: sgn_if)
  thus ?thesis
    using False by (simp add: to_double_def Let_def)
qed

lemma to_double_nonneg_small:
  assumes "0 \<le> q" and "q < 2 ^ 1023"
  shows "\<exists>r. 0 \<le> r \<and> to_double q = Finite r"
proof -
  have "\<bar>q\<bar> < 2 ^ 1023"
    using assms by simp
  hence "to_double q = Finite (sgn q * round_magnitude q)"
    by (rule to_double_in_range)
  moreover have "0 \<le> sgn q * round_magnitude q"
    using assms(1) round_magnitude_nonneg [of q] by (simp add: sgn_if)
  ultimately show ?thesis
    by blast
qed

lemma round_2dp_nonneg: "0 \<le> x \<Longrightarrow> 0 \<le> round_2dp x"
  by (simp add: round_2dp_def)

lemma round_2dp_le: "round_2dp x \<le> x + 1 / 200"
proof -
  have "of_int \<lfloor>x * 100 + 1 / 2\<rfloor> \<le> x * 100 + 1 / 2"
    by (rule of_int_floor_le)
  thus ?thesis
    by (simp add: round_2dp_def field_simps)
qed

lemma round_2dp_integral:
  assumes "x \<in> \<int>"
  shows "round_2dp x = x"
proof -
  from assms obtain z where x: "x = of_int z"
    by (auto elim: Ints_cases)
  have "x * 100 + 1 / 2 = of_int (z * 100) + 1 / 2"
    by (simp add: x)
  moreover have "\<lfloor>of_int (z * 100) + (1 / 2 :: rat)\<rfloor> = z * 100"
    by (rule floor_unique) simp_all
  ultimately have "\<lfloor>x * 100 + 1 / 2\<rfloor> = z * 100"
    by (simp only:)
  thus ?thesis
    by (simp add: round_2dp_def x)
qed

lemma Number_toFixed2_eq_round:
  assumes "0 \<le> x" and "x < 10 ^ 21 \<or> is_double x"
  shows "Number_toFixed2 (Finite x) = to_double (round_2dp x)"
proof (cases "10 ^ 21 \<le> x")
  case True
  hence d: "is_double x"
    using assms(2) by simp
  have "(2::rat) ^ 52 \<le> 10 ^ 21"
    by simp
  hence "2 ^ 52 \<le> \<bar>x\<bar>"
    using True by linarith
  hence "x \<in> \<int>"
    using d by (intro double_integral)
  hence "round_2dp x = x"
    by (rule round_2dp_integral)
  thus ?thesis
    using True assms(1) d by (simp add: Number_toFixed2_def is_double_def)
next
  case False
  show ?thesis
  proof (cases "x = 0")
    case True
    have "\<lfloor>1 / 2 :: rat\<rfloor> = 0"
      by (rule floor_unique) simp_all
    thus ?thesis
      using True by (simp add: Number_toFixed2_def round_2dp_def toFixed2_hundredths_def)
  next
    case False
    hence "sgn x = 1" and "\<bar>x\<bar> = x"
      using assms(1) by simp_all
    thus ?thesis
      using \<open>\<not> 10 ^ 21 \<le> x\<close>
      by (simp add: Number_toFixed2_def round_2dp_def toFixed2_hundredths_def mult.commute)
  qed
qed

lemma Number_toFixed2_nonneg:
  assumes "0 \<le> x"
  shows "\<exists>r. 0 \<le> r \<and> Number_toFixed2 (Finite x) = Finite r"
proof (cases "10 ^ 21 \<le> x")
  case True
  thus ?thesis
    using assms by (simp add: Number_toFixed2_def)
next
  case False
  hence "Number_toFixed2 (Finite x) = to_double (round_2dp x)"
    using assms by (intro Number_toFixed2_eq_round) simp_all
  moreover have "round_2dp x < 2 ^ 1023"
  proof -
    have "round_2dp x \<le> x + 1 / 200"
      by (rule round_2dp_le)
    also have "\<dots> < 10 ^ 21 + 1"
      using False by simp
    also have "\<dots> < (2::rat) ^ 1023"
      by simp
    finally show ?thesis .
  qed
  ultimately show ?thesis
    using to_double_nonneg_small [OF round_2dp_nonneg [OF assms]] by simp
qed

lemma to_double_nonneg_cases:
  assumes "0 \<le> q" and "to_double q \<noteq> PosInf"
  shows "\<exists>z. to_double q = Finite z \<and> 0 \<le> z \<and> is_double z"
proof -
  from to_double_nonneg [OF assms(1)] assms(2) obtain z where z: "0 \<le> z" "to_double q = Finite z"
    by blast
  from to_double_idem [OF z(2)] z show ?thesis
    by blast
qed

lemma to_double_int:
  assumes "\<bar>n\<bar> < 2 ^ 53"
  shows "to_double (of_int n) = Finite (of_int n)"
  using is_double_of_int [OF assms] by (simp only: is_double_def)

lemma Number_toFixed2_int:
  assumes "0 \<le> n" and "n < 2 ^ 53"
  shows "Number_toFixed2 (Finite (of_int n)) = Finite (of_int n)"
proof -
  have d: "is_double (of_int n)"
    using assms by (intro is_double_of_int) simp
  have "Number_toFixed2 (Finite (of_int n)) = to_double (round_2dp (of_int n))"
    using assms(1) d by (intro Number_toFixed2_eq_round) simp_all
  also have "round_2dp (of_int n :: rat) = of_int n"
    by (intro round_2dp_integral) simp
  finally show ?thesis
    using d by (simp only: is_double_def)
qed

lemma big_double: "is_double (2 ^ 1023)"
  using to_double_exact [of 1 1023] by simp

text \<open>
  \<open>round_2dp x\<close> is a multiple of \<open>1 / 100\<close> at most \<open>1 / 200\<close> away from \<open>x\<close>.
\<close>

lemma round_2dp_grid: "\<exists>n. round_2dp x = of_int n / 100"
  by (auto simp add: round_2dp_def)

lemma round_2dp_near: "\<bar>round_2dp x - x\<bar> \<le> 1 / 200"
proof -
  define n :: rat where "n = of_int \<lfloor>x * 100 + 1 / 2\<rfloor>"
  have "x * 100 + 1 / 2 < n + 1"
    unfolding n_def by linarith
  hence lo: "- (n / 100 - x) \<le> 1 / 200"
    by linarith
  have "n \<le> x * 100 + 1 / 2"
    unfolding n_def by (rule of_int_floor_le)
  hence hi: "n / 100 - x \<le> 1 / 200"
    by linarith
  have "round_2dp x = n / 100"
    by (simp add: round_2dp_def n_def)
  thus ?thesis
    using lo hi by (simp only: abs_le_iff)
qed

section \<open>Currency\<close>

text \<open>
  C7. Constructing a Currency succeeds for each of the codes USD, EUR, GBP and JPY, and the
  code accessor of the result returns that code; for every other string the constructor
  raises a ValidationError (whose message quotes the string).
\<close>

theorem Currency_ctor_valid_codes:
  "(c \<in> {lit ''USD'', lit ''EUR'', lit ''GBP'', lit ''JPY''} \<longrightarrow>
      (\<exists>cur. Currency_ctor c = Inr cur \<and> code cur = c))
   \<and> (c \<notin> {lit ''USD'', lit ''EUR'', lit ''GBP'', lit ''JPY''} \<longrightarrow>
      Currency_ctor c = Inl (ValidationError (lit ''Invalid currency code: '' @ c)))"
  by (simp add: Currency_ctor_def VALID_CODES_def)

theorem Currency_ctor_valid_codes_witness:
  "(\<exists>cur. Currency_ctor (lit ''EUR'') = Inr cur \<and> code cur = lit ''EUR'')
   \<and> Currency_ctor (lit ''XXX'') = Inl (ValidationError (lit ''Invalid currency code: '' @ lit ''XXX''))"
proof -
  have "lit ''XXX'' \<notin> {lit ''USD'', lit ''EUR'', lit ''GBP'', lit ''JPY''}"
    by (simp add: lit_def)
  thus ?thesis
    using Currency_ctor_valid_codes [of "lit ''EUR''"] Currency_ctor_valid_codes [of "lit ''XXX''"]
    by simp
qed

section \<open>Money\<close>

text \<open>
  Every Money is built by the constructor (\<open>add\<close> and \<open>multiply\<close> call it too), so its
  amount is a finite number that is not negative. The methods assign no field: in the
  model they are functions from the operands to the result, and the operands are the same
  values after a call as before it.
\<close>

lemma Money_ctor_ok:
  assumes "0 \<le> x"
  shows "Money_ctor \<lparr>arg_amount = JNum (Finite x), arg_currency = JCurrency c\<rparr>
         = Inr \<lparr>amount = Number_toFixed2 (Finite x), currency = c\<rparr>"
  using assms by (simp add: Money_ctor_def)

lemma Money_ctor_amount_rejected:
  assumes "\<not> (\<exists>y. a = JNum (Finite y) \<and> 0 \<le> y)"
  shows "Money_ctor \<lparr>arg_amount = a, arg_currency = v\<rparr>
         = Inl (ValidationError (lit ''Amount must be a positive number''))"
proof (cases a)
  case (JNum n)
  thus ?thesis
    using assms by (cases n) (simp_all add: Money_ctor_def)
qed (simp_all add: Money_ctor_def)

lemma Money_ctor_currency_rejected:
  assumes "\<not> (\<exists>cur. v = JCurrency cur)"
  shows "\<exists>msg. Money_ctor \<lparr>arg_amount = a, arg_currency = v\<rparr> = Inl (ValidationError msg)"
  using assms by (cases v) (simp_all add: Money_ctor_def split: jsval.splits)

lemma Money_ctor_amount:
  assumes "Money_ctor p = Inr m"
  shows "\<exists>x. 0 \<le> x \<and> amount m = Finite x"
proof -
  from assms obtain a c where a: "arg_amount p = JNum a" "isFinite_num a" "\<not> js_lt_zero a"
    and m: "m = \<lparr>amount = Number_toFixed2 a, currency = c\<rparr>"
    by (auto simp add: Money_ctor_def split: jsval.splits if_splits)
  from a obtain y where y: "a = Finite y" "0 \<le> y"
    by (cases a) simp_all
  from Number_toFixed2_nonneg [OF y(2)] show ?thesis
    by (simp add: m y(1))
qed

lemma Money_ctor_double:
  assumes "0 \<le> z" and "is_double z"
  shows "Money_ctor \<lparr>arg_amount = JNum (Finite z), arg_currency = JCurrency c\<rparr>
         = Inr \<lparr>amount = to_double (round_2dp z), currency = c\<rparr>"
  using assms by (simp add: Money_ctor_ok Number_toFixed2_eq_round)

lemma Money_ctor_PosInf:
  "Money_ctor \<lparr>arg_amount = JNum PosInf, arg_currency = v\<rparr>
   = Inl (ValidationError (lit ''Amount must be a positive number''))"
  by (simp add: Money_ctor_def)

lemma Money_ctor_int:
  assumes "0 \<le> n" and "n < 2 ^ 53"
  shows "Money_ctor \<lparr>arg_amount = JNum (Finite (of_int n)), arg_currency = JCurrency c\<rparr>
         = Inr \<lparr>amount = Finite (of_int n), currency = c\<rparr>"
  using assms by (simp add: Money_ctor_ok Number_toFixed2_int)

lemma Money_add_not_Money:
  assumes "\<not> (\<exists>m. other = JMoney m)"
  shows "Money_add this other = Inl (ValidationError (lit ''Can only add Money with the same currency''))"
  using assms by (cases other) (simp_all add: Money_add_def)

lemma Money_add_other_currency:
  assumes "\<not> Currency_equals (currency this) (JCurrency (currency m))"
  shows "Money_add this (JMoney m)
         = Inl (ValidationError (lit ''Can only add Money with the same currency''))"
  using assms by (simp add: Money_add_def)

lemma Money_add_same_currency:
  assumes "Currency_equals (currency this) (JCurrency (currency m))"
  shows "Money_add this (JMoney m)
         = Money_ctor \<lparr>arg_amount = JNum (js_add (amount this) (amount m)),
                        arg_currency = JCurrency (currency this)\<rparr>"
  using assms by (simp add: Money_add_def)

lemma Money_add_cases:
  assumes "Money_ctor p = Inr this" and "Money_ctor p' = Inr m"
    and "Currency_equals (currency this) (JCurrency (currency m))"
  shows "(js_add (amount this) (amount m) = PosInf
            \<and> Money_add this (JMoney m)
                = Inl (ValidationError (lit ''Amount must be a positive number'')))
         \<or> (\<exists>z. js_add (amount this) (amount m) = Finite z \<and> 0 \<le> z \<and> is_double z
                 \<and> Money_add this (JMoney m)
                     = Inr \<lparr>amount = to_double (round_2dp z), currency = currency this\<rparr>)"
proof -
  from Money_ctor_amount [OF assms(1)] obtain x where x: "0 \<le> x" "amount this = Finite x"
    by blast
  from Money_ctor_amount [OF assms(2)] obtain y where y: "0 \<le> y" "amount m = Finite y"
    by blast
  have sum: "js_add (amount this) (amount m) = to_double (x + y)"
    by (simp add: x(2) y(2))
  have nonneg: "0 \<le> x + y"
    using x(1) y(1) by simp
  show ?thesis
  proof (cases "to_double (x + y) = PosInf")
    case True
    thus ?thesis
      using assms(3) by (simp add: Money_add_same_currency sum Money_ctor_PosInf)
  next
    case False
    from to_double_nonneg_cases [OF nonneg False] obtain z
      where z: "to_double (x + y) = Finite z" "0 \<le> z" "is_double z"
      by blast
    have "Money_add this (JMoney m)
            = Money_ctor \<lparr>arg_amount = JNum (Finite z), arg_currency = JCurrency (currency this)\<rparr>"
      using assms(3) by (simp add: Money_add_same_currency sum z(1))
    also have "\<dots> = Inr \<lparr>amount = to_double (round_2dp z), currency = currency this\<rparr>"
      using z(2,3) by (rule Money_ctor_double)
    finally show ?thesis
      using z sum by simp
  qed
qed

lemma Money_multiply_rejected:
  assumes "\<not> (\<exists>k. v = JNum (Finite k) \<and> 0 \<le> k)"
  shows "Money_multiply this v
         = Inl (ValidationError (lit ''Multiplier must be a positive number''))"
proof (cases v)
  case (JNum n)
  thus ?thesis
    using assms by (cases n) (simp_all add: Money_multiply_def)
qed (simp_all add: Money_multiply_def)

lemma Money_multiply_accepted:
  assumes "0 \<le> k"
  shows "Money_multiply this (JNum (Finite k))
         = Money_ctor \<lparr>arg_amount = JNum (js_mul (amount this) (Finite k)),
                        arg_currency = JCurrency (currency this)\<rparr>"
  using assms by (simp add: Money_multiply_def)

lemma Money_equals_self:
  assumes "amount m = Finite x"
  shows "Money_equals m (JMoney m)"
  using assms by (simp add: Money_equals_def Currency_equals_def)

lemma Money_multiply_cases:
  assumes "Money_ctor p = Inr this" and "0 \<le> k"
  shows "(js_mul (amount this) (Finite k) = PosInf
            \<and> Money_multiply this (JNum (Finite k))
                = Inl (ValidationError (lit ''Amount must be a positive number'')))
         \<or> (\<exists>z. js_mul (amount this) (Finite k) = Finite z \<and> 0 \<le> z \<and> is_double z
                 \<and> Money_multiply this (JNum (Finite k))
                     = Inr \<lparr>amount = to_double (round_2dp z), currency = currency this\<rparr>)"
proof -
  from Money_ctor_amount [OF assms(1)] obtain x where x: "0 \<le> x" "amount this = Finite x"
    by blast
  have prod: "js_mul (amount this) (Finite k) = to_double (x * k)"
    by (simp add: x(2))
  have nonneg: "0 \<le> x * k"
    using x(1) assms(2) by simp
  show ?thesis
  proof (cases "to_double (x * k) = PosInf")
    case True
    thus ?thesis
      using assms(2) by (simp add: Money_multiply_accepted prod Money_ctor_PosInf)
  next
    case False
    from to_double_nonneg_cases [OF nonneg False] obtain z
      where z: "to_double (x * k) = Finite z" "0 \<le> z" "is_double z"
      by blast
    have "Money_multiply this (JNum (Finite k))
            = Money_ctor \<lparr>arg_amount = JNum (Finite z), arg_currency = JCurrency (currency this)\<rparr>"
      using assms(2) by (simp add: Money_multiply_accepted prod z(1))
    also have "\<dots> = Inr \<lparr>amount = to_double (round_2dp z), currency = currency this\<rparr>"
      using z(2,3) by (rule Money_ctor_double)
    finally show ?thesis
      using z prod by simp
  qed
qed

lemma Money_multiply_zero:
  assumes "Money_ctor p = Inr this"
  shows "Money_multiply this (JNum (Finite 0)) = Inr \<lparr>amount = Finite 0, currency = currency this\<rparr>"
proof -
  from Money_ctor_amount [OF assms] obtain x where x: "amount this = Finite x"
    by blast
  have zero: "to_double 0 = Finite 0"
    using to_double_int [of 0] by simp
  have "Money_multiply this (JNum (Finite 0))
          = Money_ctor \<lparr>arg_amount = JNum (Finite 0), arg_currency = JCurrency (currency this)\<rparr>"
    by (simp add: Money_multiply_accepted x zero)
  also have "\<dots> = Inr \<lparr>amount = Finite 0, currency = currency this\<rparr>"
    using Money_ctor_int [of 0] by simp
  finally show ?thesis .
qed

lemma Money_multiply_100_by_2:
  "Money_multiply \<lparr>amount = Finite 100, currency = c\<rparr> (JNum (Finite 2))
   = Inr \<lparr>amount = Finite 200, currency = c\<rparr>"
proof -
  have "to_double (100 * 2) = Finite 200"
    using to_double_int [of 200] by simp
  hence "Money_multiply \<lparr>amount = Finite 100, currency = c\<rparr> (JNum (Finite 2))
         = Money_ctor \<lparr>arg_amount = JNum (Finite 200), arg_currency = JCurrency c\<rparr>"
    by (simp add: Money_multiply_def)
  thus ?thesis
    using Money_ctor_int [of 200 c] by simp
qed

text \<open>
  C4. For every double \<open>x \<ge> 0\<close> and every Currency, the constructor succeeds and the
  stored amount is \<open>x\<close> rounded to 2 decimal places (a half upwards), as the nearest
  double, a finite number that is not negative. The constructor raises a ValidationError
  whenever the amount is not a finite number that is at least 0 (a negative number, NaN,
  an infinity, or a value that is not a number), and whenever the currency is not a
  Currency instance.
\<close>

theorem Money_ctor_rounds_or_rejects:
  "(0 \<le> x \<and> is_double x \<longrightarrow>
      Money_ctor \<lparr>arg_amount = JNum (Finite x), arg_currency = JCurrency c\<rparr>
        = Inr \<lparr>amount = to_double (round_2dp x), currency = c\<rparr>
      \<and> (\<exists>r. 0 \<le> r \<and> to_double (round_2dp x) = Finite r))
   \<and> (\<not> (\<exists>y. a = JNum (Finite y) \<and> 0 \<le> y) \<longrightarrow>
      Money_ctor \<lparr>arg_amount = a, arg_currency = v\<rparr>
        = Inl (ValidationError (lit ''Amount must be a positive number'')))
   \<and> (\<not> (\<exists>cur. v = JCurrency cur) \<longrightarrow>
      (\<exists>msg. Money_ctor \<lparr>arg_amount = a, arg_currency = v\<rparr> = Inl (ValidationError msg)))"
proof (intro conjI impI)
  assume x: "0 \<le> x \<and> is_double x"
  thus "Money_ctor \<lparr>arg_amount = JNum (Finite x), arg_currency = JCurrency c\<rparr>
        = Inr \<lparr>amount = to_double (round_2dp x), currency = c\<rparr>"
    by (simp add: Money_ctor_double)
  from x have "Number_toFixed2 (Finite x) = to_double (round_2dp x)"
    by (simp add: Number_toFixed2_eq_round)
  thus "\<exists>r. 0 \<le> r \<and> to_double (round_2dp x) = Finite r"
    using Number_toFixed2_nonneg [of x] x by simp
next
  assume "\<not> (\<exists>y. a = JNum (Finite y) \<and> 0 \<le> y)"
  thus "Money_ctor \<lparr>arg_amount = a, arg_currency = v\<rparr>
        = Inl (ValidationError (lit ''Amount must be a positive number''))"
    by (rule Money_ctor_amount_rejected)
next
  assume "\<not> (\<exists>cur. v = JCurrency cur)"
  thus "\<exists>msg. Money_ctor \<lparr>arg_amount = a, arg_currency = v\<rparr> = Inl (ValidationError msg)"
    by (rule Money_ctor_currency_rejected)
qed

text \<open>
  The amount \<open>1.005\<close> is the double \<open>1131529406376837 / 2 ^ 50\<close>, just below the decimal;
  the stored amount is \<open>1\<close>.
\<close>

theorem Money_ctor_rounds_or_rejects_witness:
  "is_double (1131529406376837 / 2 ^ 50)
   \<and> Money_ctor \<lparr>arg_amount = JNum (Finite (1131529406376837 / 2 ^ 50)),
                  arg_currency = JCurrency \<lparr>code = lit ''USD''\<rparr>\<rparr>
       = Inr \<lparr>amount = Finite 1, currency = \<lparr>code = lit ''USD''\<rparr>\<rparr>
   \<and> Money_ctor \<lparr>arg_amount = JNum (Finite (- 1)), arg_currency = JCurrency \<lparr>code = lit ''USD''\<rparr>\<rparr>
       = Inl (ValidationError (lit ''Amount must be a positive number''))
   \<and> Money_ctor \<lparr>arg_amount = JNum PosInf, arg_currency = JCurrency \<lparr>code = lit ''USD''\<rparr>\<rparr>
       = Inl (ValidationError (lit ''Amount must be a positive number''))
   \<and> (\<exists>msg. Money_ctor \<lparr>arg_amount = JNum (Finite 1), arg_currency = JStr (lit ''USD'')\<rparr>
          = Inl (ValidationError msg))"
proof -
  let ?usd = "\<lparr>code = lit ''USD''\<rparr>"
  let ?x = "1131529406376837 / 2 ^ 50 :: rat"
  have d: "is_double ?x"
    using to_double_exact [of 1131529406376837 "- 50"] by (simp add: power_int_minus)
  have r: "round_2dp ?x = 1"
    by code_simp
  have one: "to_double 1 = Finite 1"
    using to_double_int [of 1] by simp
  have "Money_ctor \<lparr>arg_amount = JNum (Finite ?x), arg_currency = JCurrency ?usd\<rparr>
          = Inr \<lparr>amount = to_double (round_2dp ?x), currency = ?usd\<rparr>"
    using Money_ctor_rounds_or_rejects [of ?x ?usd JNull JNull] d by simp
  hence c1: "Money_ctor \<lparr>arg_amount = JNum (Finite ?x), arg_currency = JCurrency ?usd\<rparr>
          = Inr \<lparr>amount = Finite 1, currency = ?usd\<rparr>"
    by (simp only: r one)
  have c2: "Money_ctor \<lparr>arg_amount = JNum (Finite (- 1)), arg_currency = JCurrency ?usd\<rparr>
       = Inl (ValidationError (lit ''Amount must be a positive number''))"
    using Money_ctor_rounds_or_rejects [of 0 ?usd "JNum (Finite (- 1))" "JCurrency ?usd"] by simp
  have c3: "Money_ctor \<lparr>arg_amount = JNum PosInf, arg_currency = JCurrency ?usd\<rparr>
       = Inl (ValidationError (lit ''Amount must be a positive number''))"
    using Money_ctor_rounds_or_rejects [of 0 ?usd "JNum PosInf" "JCurrency ?usd"] by simp
  have c4: "\<exists>msg. Money_ctor \<lparr>arg_amount = JNum (Finite 1), arg_currency = JStr (lit ''USD'')\<rparr>
          = Inl (ValidationError msg)"
    using Money_ctor_rounds_or_rejects [of 0 ?usd "JNum (Finite 1)" "JStr (lit ''USD'')"] by simp
  show ?thesis
    using d c1 c2 c3 c4 by (intro conjI)
qed

text \<open>
  C5 as stated fails: \<open>2 ^ 1023\<close> is a double, the Money holding it is one the constructor
  builds, and adding that Money to itself, a Money of the same currency, raises a
  ValidationError, because the sum of the amounts is \<open>Infinity\<close>.
\<close>

theorem Money_add_overflow_counterexample:
  "is_double (2 ^ 1023)
   \<and> Currency_ctor (lit ''USD'') = Inr \<lparr>code = lit ''USD''\<rparr>
   \<and> Money_ctor \<lparr>arg_amount = JNum (Finite (2 ^ 1023)),
                  arg_currency = JCurrency \<lparr>code = lit ''USD''\<rparr>\<rparr>
       = Inr \<lparr>amount = Finite (2 ^ 1023), currency = \<lparr>code = lit ''USD''\<rparr>\<rparr>
   \<and> Currency_equals \<lparr>code = lit ''USD''\<rparr> (JCurrency \<lparr>code = lit ''USD''\<rparr>)
   \<and> Money_add \<lparr>amount = Finite (2 ^ 1023), currency = \<lparr>code = lit ''USD''\<rparr>\<rparr>
        (JMoney \<lparr>amount = Finite (2 ^ 1023), currency = \<lparr>code = lit ''USD''\<rparr>\<rparr>)
       = Inl (ValidationError (lit ''Amount must be a positive number''))"
proof -
  have ctor: "Money_ctor \<lparr>arg_amount = JNum (Finite (2 ^ 1023)),
                  arg_currency = JCurrency \<lparr>code = lit ''USD''\<rparr>\<rparr>
       = Inr \<lparr>amount = Finite (2 ^ 1023), currency = \<lparr>code = lit ''USD''\<rparr>\<rparr>"
    by (simp add: Money_ctor_def Number_toFixed2_def)
  have "to_double (2 ^ 1023 + 2 ^ 1023) = PosInf"
    by (rule to_double_overflow) simp
  hence add: "Money_add \<lparr>amount = Finite (2 ^ 1023), currency = \<lparr>code = lit ''USD''\<rparr>\<rparr>
        (JMoney \<lparr>amount = Finite (2 ^ 1023), currency = \<lparr>code = lit ''USD''\<rparr>\<rparr>)
       = Inl (ValidationError (lit ''Amount must be a positive number''))"
    by (simp add: Money_add_def Currency_equals_def Money_ctor_def)
  have cur: "Currency_ctor (lit ''USD'') = Inr \<lparr>code = lit ''USD''\<rparr>"
    by (simp add: Currency_ctor_def VALID_CODES_def)
  have eq: "Currency_equals \<lparr>code = lit ''USD''\<rparr> (JCurrency \<lparr>code = lit ''USD''\<rparr>)"
    by (simp add: Currency_equals_def)
  show ?thesis
    using big_double cur ctor eq add by (intro conjI)
qed

text \<open>
  C5, amended. For Money instances \<open>this\<close> and \<open>m\<close>: \<open>this.add(other)\<close> raises a
  ValidationError when \<open>other\<close> is not a Money; \<open>this.add(m)\<close> raises a ValidationError if
  and only if the currency of \<open>m\<close> is not equal (by \<open>Currency.equals\<close>) to that of \<open>this\<close>
  or the double-precision sum of the two amounts is \<open>Infinity\<close>; otherwise it returns a
  Money whose amount is that sum, a finite double \<open>z \<ge> 0\<close>, rounded to 2 decimal places,
  and whose currency is that of \<open>this\<close>.
\<close>

theorem Money_add_spec:
  assumes "Money_ctor p = Inr this" and "Money_ctor p' = Inr m"
  shows "(\<not> (\<exists>m'. other = JMoney m') \<longrightarrow>
            Money_add this other
              = Inl (ValidationError (lit ''Can only add Money with the same currency'')))
         \<and> ((\<exists>msg. Money_add this (JMoney m) = Inl (ValidationError msg))
              = (\<not> Currency_equals (currency this) (JCurrency (currency m))
                 \<or> js_add (amount this) (amount m) = PosInf))
         \<and> (Currency_equals (currency this) (JCurrency (currency m))
              \<and> js_add (amount this) (amount m) \<noteq> PosInf \<longrightarrow>
            (\<exists>z. js_add (amount this) (amount m) = Finite z \<and> 0 \<le> z \<and> is_double z
                 \<and> Money_add this (JMoney m)
                     = Inr \<lparr>amount = to_double (round_2dp z), currency = currency this\<rparr>))"
proof (intro conjI)
  show "\<not> (\<exists>m'. other = JMoney m') \<longrightarrow>
            Money_add this other
              = Inl (ValidationError (lit ''Can only add Money with the same currency''))"
    by (simp add: Money_add_not_Money)
next
  show "(\<exists>msg. Money_add this (JMoney m) = Inl (ValidationError msg))
              = (\<not> Currency_equals (currency this) (JCurrency (currency m))
                 \<or> js_add (amount this) (amount m) = PosInf)"
  proof (cases "Currency_equals (currency this) (JCurrency (currency m))")
    case False
    thus ?thesis
      by (simp add: Money_add_other_currency)
  next
    case True
    from Money_add_cases [OF assms True] show ?thesis
      using True by auto
  qed
next
  show "Currency_equals (currency this) (JCurrency (currency m))
              \<and> js_add (amount this) (amount m) \<noteq> PosInf \<longrightarrow>
            (\<exists>z. js_add (amount this) (amount m) = Finite z \<and> 0 \<le> z \<and> is_double z
                 \<and> Money_add this (JMoney m)
                     = Inr \<lparr>amount = to_double (round_2dp z), currency = currency this\<rparr>)"
    using Money_add_cases [OF assms] by blast
qed

theorem Money_add_spec_witness:
  "Money_add \<lparr>amount = Finite 100, currency = \<lparr>code = lit ''USD''\<rparr>\<rparr>
      (JMoney \<lparr>amount = Finite 50, currency = \<lparr>code = lit ''USD''\<rparr>\<rparr>)
     = Inr \<lparr>amount = Finite 150, currency = \<lparr>code = lit ''USD''\<rparr>\<rparr>
   \<and> Money_ctor \<lparr>arg_amount = JNum (Finite 150), arg_currency = JCurrency \<lparr>code = lit ''USD''\<rparr>\<rparr>
     = Inr \<lparr>amount = Finite 150, currency = \<lparr>code = lit ''USD''\<rparr>\<rparr>
   \<and> (\<exists>msg. Money_add \<lparr>amount = Finite 100, currency = \<lparr>code = lit ''USD''\<rparr>\<rparr>
          (JMoney \<lparr>amount = Finite 50, currency = \<lparr>code = lit ''EUR''\<rparr>\<rparr>)
        = Inl (ValidationError msg))
   \<and> Money_add \<lparr>amount = Finite 100, currency = \<lparr>code = lit ''USD''\<rparr>\<rparr> (JNum (Finite 50))
     = Inl (ValidationError (lit ''Can only add Money with the same currency''))"
proof -
  let ?usd = "\<lparr>code = lit ''USD''\<rparr>"
  let ?eur = "\<lparr>code = lit ''EUR''\<rparr>"
  let ?a = "\<lparr>amount = Finite 100, currency = ?usd\<rparr>"
  let ?b = "\<lparr>amount = Finite 50, currency = ?usd\<rparr>"
  let ?c = "\<lparr>amount = Finite 50, currency = ?eur\<rparr>"
  have a: "Money_ctor \<lparr>arg_amount = JNum (Finite 100), arg_currency = JCurrency ?usd\<rparr> = Inr ?a"
    using Money_ctor_int [of 100 ?usd] by simp
  have b: "Money_ctor \<lparr>arg_amount = JNum (Finite 50), arg_currency = JCurrency ?usd\<rparr> = Inr ?b"
    using Money_ctor_int [of 50 ?usd] by simp
  have c: "Money_ctor \<lparr>arg_amount = JNum (Finite 50), arg_currency = JCurrency ?eur\<rparr> = Inr ?c"
    using Money_ctor_int [of 50 ?eur] by simp
  have s: "Money_ctor \<lparr>arg_amount = JNum (Finite 150), arg_currency = JCurrency ?usd\<rparr>
           = Inr \<lparr>amount = Finite 150, currency = ?usd\<rparr>"
    using Money_ctor_int [of 150 ?usd] by simp
  have sum: "js_add (amount ?a) (amount ?b) = Finite 150"
    using to_double_int [of 150] by simp
  have same: "Currency_equals (currency ?a) (JCurrency (currency ?b))"
    by (simp add: Currency_equals_def)
  have differ: "\<not> Currency_equals (currency ?a) (JCurrency (currency ?c))"
    by (simp add: Currency_equals_def lit_def)
  from Money_add_spec [OF a b, of "JNum (Finite 50)"] sum same obtain z
    where z: "js_add (amount ?a) (amount ?b) = Finite z"
      and r: "Money_add ?a (JMoney ?b) = Inr \<lparr>amount = to_double (round_2dp z), currency = currency ?a\<rparr>"
      and o: "Money_add ?a (JNum (Finite 50))
                = Inl (ValidationError (lit ''Can only add Money with the same currency''))"
    by auto
  from z sum have "z = 150"
    by simp
  moreover have "round_2dp 150 = 150"
    using round_2dp_integral [of 150] by simp
  moreover have "to_double 150 = Finite 150"
    using to_double_int [of 150] by simp
  ultimately have r': "Money_add ?a (JMoney ?b) = Inr \<lparr>amount = Finite 150, currency = ?usd\<rparr>"
    using r by simp
  have d: "\<exists>msg. Money_add ?a (JMoney ?c) = Inl (ValidationError msg)"
    using Money_add_spec [OF a c, of JNull] differ by blast
  show ?thesis
    using r' s d o by (intro conjI)
qed

text \<open>
  C6 as stated fails: multiplying the Money that holds the double \<open>2 ^ 1023\<close> by \<open>2\<close>, a
  finite multiplier that is not negative, raises a ValidationError, because the product
  is \<open>Infinity\<close>.
\<close>

theorem Money_multiply_overflow_counterexample:
  "is_double (2 ^ 1023)
   \<and> Money_ctor \<lparr>arg_amount = JNum (Finite (2 ^ 1023)),
                  arg_currency = JCurrency \<lparr>code = lit ''USD''\<rparr>\<rparr>
       = Inr \<lparr>amount = Finite (2 ^ 1023), currency = \<lparr>code = lit ''USD''\<rparr>\<rparr>
   \<and> is_double 2 \<and> (0::rat) \<le> 2
   \<and> Money_multiply \<lparr>amount = Finite (2 ^ 1023), currency = \<lparr>code = lit ''USD''\<rparr>\<rparr>
        (JNum (Finite 2))
       = Inl (ValidationError (lit ''Amount must be a positive number''))"
proof -
  have ctor: "Money_ctor \<lparr>arg_amount = JNum (Finite (2 ^ 1023)),
                  arg_currency = JCurrency \<lparr>code = lit ''USD''\<rparr>\<rparr>
       = Inr \<lparr>amount = Finite (2 ^ 1023), currency = \<lparr>code = lit ''USD''\<rparr>\<rparr>"
    by (simp add: Money_ctor_def Number_toFixed2_def)
  have two: "is_double 2"
    using is_double_of_int [of 2] by simp
  have "to_double (2 ^ 1023 * 2) = PosInf"
    by (rule to_double_overflow) simp
  hence mul: "Money_multiply \<lparr>amount = Finite (2 ^ 1023), currency = \<lparr>code = lit ''USD''\<rparr>\<rparr>
        (JNum (Finite 2))
       = Inl (ValidationError (lit ''Amount must be a positive number''))"
    by (simp add: Money_multiply_def Money_ctor_def)
  have "(0::rat) \<le> 2"
    by simp
  thus ?thesis
    using big_double ctor two mul by (intro conjI)
qed

text \<open>
  C6, amended. For a Money instance \<open>this\<close>: \<open>this.multiply(v)\<close> raises a ValidationError
  if and only if \<open>v\<close> is not a finite number that is at least 0, or the double-precision
  product of the amount and \<open>v\<close> is \<open>Infinity\<close>; otherwise it returns a Money whose amount
  is that product, a finite double \<open>z \<ge> 0\<close>, rounded to 2 decimal places, and whose
  currency is that of \<open>this\<close>. Multiplying by 0 gives the amount 0, and
  \<open>Money(100, c).multiply(2)\<close> is \<open>Money(200, c)\<close>, equal to it by \<open>Money.equals\<close>.
\<close>

theorem Money_multiply_spec:
  assumes "Money_ctor p = Inr this"
  shows "((\<exists>msg. Money_multiply this v = Inl (ValidationError msg))
            = (\<not> (\<exists>k. v = JNum (Finite k) \<and> 0 \<le> k)
               \<or> (\<exists>k. v = JNum (Finite k) \<and> js_mul (amount this) (Finite k) = PosInf)))
         \<and> (0 \<le> k \<and> js_mul (amount this) (Finite k) \<noteq> PosInf \<longrightarrow>
            (\<exists>z. js_mul (amount this) (Finite k) = Finite z \<and> 0 \<le> z \<and> is_double z
                 \<and> Money_multiply this (JNum (Finite k))
                     = Inr \<lparr>amount = to_double (round_2dp z), currency = currency this\<rparr>))
         \<and> Money_multiply this (JNum (Finite 0)) = Inr \<lparr>amount = Finite 0, currency = currency this\<rparr>
         \<and> Money_ctor \<lparr>arg_amount = JNum (Finite 100), arg_currency = JCurrency c\<rparr>
             = Inr \<lparr>amount = Finite 100, currency = c\<rparr>
         \<and> Money_ctor \<lparr>arg_amount = JNum (Finite 200), arg_currency = JCurrency c\<rparr>
             = Inr \<lparr>amount = Finite 200, currency = c\<rparr>
         \<and> Money_multiply \<lparr>amount = Finite 100, currency = c\<rparr> (JNum (Finite 2))
             = Inr \<lparr>amount = Finite 200, currency = c\<rparr>
         \<and> Money_equals \<lparr>amount = Finite 200, currency = c\<rparr>
              (JMoney \<lparr>amount = Finite 200, currency = c\<rparr>)"
proof (intro conjI)
  show "(\<exists>msg. Money_multiply this v = Inl (ValidationError msg))
            = (\<not> (\<exists>k. v = JNum (Finite k) \<and> 0 \<le> k)
               \<or> (\<exists>k. v = JNum (Finite k) \<and> js_mul (amount this) (Finite k) = PosInf))"
  proof (cases "\<exists>k. v = JNum (Finite k) \<and> 0 \<le> k")
    case False
    thus ?thesis
      by (simp add: Money_multiply_rejected)
  next
    case True
    then obtain k where k: "v = JNum (Finite k)" "0 \<le> k"
      by blast
    from Money_multiply_cases [OF assms k(2)] show ?thesis
      using k by auto
  qed
next
  show "0 \<le> k \<and> js_mul (amount this) (Finite k) \<noteq> PosInf \<longrightarrow>
            (\<exists>z. js_mul (amount this) (Finite k) = Finite z \<and> 0 \<le> z \<and> is_double z
                 \<and> Money_multiply this (JNum (Finite k))
                     = Inr \<lparr>amount = to_double (round_2dp z), currency = currency this\<rparr>)"
    using Money_multiply_cases [OF assms, of k] by blast
next
  show "Money_multiply this (JNum (Finite 0)) = Inr \<lparr>amount = Finite 0, currency = currency this\<rparr>"
    using assms by (rule Money_multiply_zero)
next
  show "Money_ctor \<lparr>arg_amount = JNum (Finite 100), arg_currency = JCurrency c\<rparr>
             = Inr \<lparr>amount = Finite 100, currency = c\<rparr>"
    using Money_ctor_int [of 100 c] by simp
next
  show "Money_ctor \<lparr>arg_amount = JNum (Finite 200), arg_currency = JCurrency c\<rparr>
             = Inr \<lparr>amount = Finite 200, currency = c\<rparr>"
    using Money_ctor_int [of 200 c] by simp
next
  show "Money_multiply \<lparr>amount = Finite 100, currency = c\<rparr> (JNum (Finite 2))
             = Inr \<lparr>amount = Finite 200, currency = c\<rparr>"
    by (rule Money_multiply_100_by_2)
next
  show "Money_equals \<lparr>amount = Finite 200, currency = c\<rparr>
              (JMoney \<lparr>amount = Finite 200, currency = c\<rparr>)"
    by (rule Money_equals_self [of _ 200]) simp
qed

theorem Money_multiply_spec_witness:
  "Money_ctor \<lparr>arg_amount = JNum (Finite (5 / 2)), arg_currency = JCurrency \<lparr>code = lit ''USD''\<rparr>\<rparr>
     = Inr \<lparr>amount = Finite (5 / 2), currency = \<lparr>code = lit ''USD''\<rparr>\<rparr>
   \<and> Money_multiply \<lparr>amount = Finite (5 / 2), currency = \<lparr>code = lit ''USD''\<rparr>\<rparr> (JNum (Finite 3))
     = Inr \<lparr>amount = Finite (15 / 2), currency = \<lparr>code = lit ''USD''\<rparr>\<rparr>
   \<and> (\<exists>msg. Money_multiply \<lparr>amount = Finite (5 / 2), currency = \<lparr>code = lit ''USD''\<rparr>\<rparr>
          (JNum (Finite (- 1))) = Inl (ValidationError msg))
   \<and> (\<exists>msg. Money_multiply \<lparr>amount = Finite (5 / 2), currency = \<lparr>code = lit ''USD''\<rparr>\<rparr>
          (JStr (lit ''2'')) = Inl (ValidationError msg))
   \<and> Money_multiply \<lparr>amount = Finite (5 / 2), currency = \<lparr>code = lit ''USD''\<rparr>\<rparr> (JNum (Finite 0))
     = Inr \<lparr>amount = Finite 0, currency = \<lparr>code = lit ''USD''\<rparr>\<rparr>"
proof -
  let ?usd = "\<lparr>code = lit ''USD''\<rparr>"
  let ?p = "\<lparr>arg_amount = JNum (Finite (5 / 2)), arg_currency = JCurrency ?usd\<rparr>"
  let ?h = "\<lparr>amount = Finite (5 / 2), currency = ?usd\<rparr>"
  have half: "is_double (5 / 2)"
    using to_double_exact [of 5 "- 1"] by (simp add: power_int_minus)
  have r1: "round_2dp (5 / 2) = 5 / 2"
    by code_simp
  have h: "Money_ctor ?p = Inr ?h"
    using Money_ctor_double [of "5 / 2" ?usd] half by (simp add: r1 is_double_def)
  have d: "is_double (15 / 2)"
    using to_double_exact [of 15 "- 1"] by (simp add: power_int_minus)
  hence prod: "js_mul (amount ?h) (Finite 3) = Finite (15 / 2)"
    by (simp add: is_double_def)
  have r2: "round_2dp (15 / 2) = 15 / 2"
    by code_simp
  note t = Money_multiply_spec [OF h, of _ _ ?usd]
  from t [of "JNull" 3] prod obtain z where z: "js_mul (amount ?h) (Finite 3) = Finite z"
    and r: "Money_multiply ?h (JNum (Finite 3)) = Inr \<lparr>amount = to_double (round_2dp z), currency = currency ?h\<rparr>"
    by auto
  from z prod have zz: "z = 15 / 2"
    by simp
  have "to_double (round_2dp z) = Finite (15 / 2)"
    using d by (simp only: zz r2 is_double_def)
  hence m: "Money_multiply ?h (JNum (Finite 3)) = Inr \<lparr>amount = Finite (15 / 2), currency = ?usd\<rparr>"
    using r by simp
  have n: "\<exists>msg. Money_multiply ?h (JNum (Finite (- 1))) = Inl (ValidationError msg)"
    using t [of "JNum (Finite (- 1))" 0] by simp
  have s: "\<exists>msg. Money_multiply ?h (JStr (lit ''2'')) = Inl (ValidationError msg)"
    using t [of "JStr (lit ''2'')" 0] by simp
  have z0: "Money_multiply ?h (JNum (Finite 0)) = Inr \<lparr>amount = Finite 0, currency = ?usd\<rparr>"
    using t [of JNull 0] by simp
  show ?thesis
    using h m n s z0 by (intro conjI)
qed

section \<open>Identifiers\<close>

text \<open>
  C8. For a UUID string that both constructors accept, the SupplierId and the ProductId
  built from it are not equal, whichever of the two \<open>equals\<close> methods is asked.
\<close>

theorem SupplierId_ProductId_distinct:
  assumes "SupplierId_ctor uuidValidate u = Inr s" and "ProductId_ctor uuidValidate u = Inr p"
  shows "sid_value s = pid_value p
         \<and> \<not> SupplierId_equals s (JProductId p) \<and> \<not> ProductId_equals p (JSupplierId s)"
  using assms
  by (auto simp add: SupplierId_ctor_def ProductId_ctor_def SupplierId_equals_def
      ProductId_equals_def split: if_splits)

theorem SupplierId_ProductId_distinct_witness:
  "SupplierId_ctor (\<lambda>v. length v = 36) (lit ''550e8400-e29b-41d4-a716-446655440000'')
     = Inr \<lparr>sid_value = lit ''550e8400-e29b-41d4-a716-446655440000''\<rparr>
   \<and> ProductId_ctor (\<lambda>v. length v = 36) (lit ''550e8400-e29b-41d4-a716-446655440000'')
     = Inr \<lparr>pid_value = lit ''550e8400-e29b-41d4-a716-446655440000''\<rparr>
   \<and> \<not> SupplierId_equals \<lparr>sid_value = lit ''550e8400-e29b-41d4-a716-446655440000''\<rparr>
          (JProductId \<lparr>pid_value = lit ''550e8400-e29b-41d4-a716-446655440000''\<rparr>)
   \<and> \<not> ProductId_equals \<lparr>pid_value = lit ''550e8400-e29b-41d4-a716-446655440000''\<rparr>
          (JSupplierId \<lparr>sid_value = lit ''550e8400-e29b-41d4-a716-446655440000''\<rparr>)"
proof -
  let ?u = "lit ''550e8400-e29b-41d4-a716-446655440000''"
  have s: "SupplierId_ctor (\<lambda>v. length v = 36) ?u = Inr \<lparr>sid_value = ?u\<rparr>"
    by (simp add: SupplierId_ctor_def isValidUUID_def lit_def)
  have p: "ProductId_ctor (\<lambda>v. length v = 36) ?u = Inr \<lparr>pid_value = ?u\<rparr>"
    by (simp add: ProductId_ctor_def isValidUUID_def lit_def)
  show ?thesis
    using s p SupplierId_ProductId_distinct [OF s p] by simp
qed

text \<open>
  The generated string is a valid UUID, whatever the random octets are.
\<close>

lemma hex_digit_cases:
  "list_all (\<lambda>k. one_of ''0123456789abcdefABCDEF'' (hex_digit k)) [0..<16]"
  by code_simp

lemma hex_digit_hex: "one_of ''0123456789abcdefABCDEF'' (hex_digit n)"
proof -
  have "hex_digit n = hex_digit (n mod 16)"
    by (simp add: hex_digit_def)
  moreover have "n mod 16 \<in> set [0..<16]"
    by simp
  ultimately show ?thesis
    using hex_digit_cases by (simp only: list_all_iff)
qed

lemma version_digit: "(64 + m mod 16) div 16 = (4::nat)"
proof (rule div_nat_eqI)
  show "16 * 4 \<le> 64 + m mod 16"
    by simp
  have "m mod 16 < 16"
    by simp
  thus "64 + m mod 16 < 16 * Suc 4"
    by simp
qed

lemma variant_digit: "(128 + m mod 64) div 16 \<in> set [8, 9, 10, 11 :: nat]"
proof -
  define k where "k = (128 + m mod 64) div 16"
  have "m mod 64 < 64"
    by simp
  hence "128 + m mod 64 < 12 * 16"
    by simp
  hence upper: "k < 12"
    unfolding k_def by (rule less_mult_imp_div_less)
  have "(128::nat) div 16 \<le> (128 + m mod 64) div 16"
    by (rule div_le_mono) simp
  hence lower: "8 \<le> k"
    unfolding k_def by simp
  from lower upper have "k = 8 \<or> k = 9 \<or> k = 10 \<or> k = 11"
    by linarith
  thus ?thesis
    unfolding k_def by auto
qed

lemma hex_digit_version: "one_of ''12345678'' (hex_digit ((64 + m mod 16) div 16))"
proof -
  have "one_of ''12345678'' (hex_digit 4)"
    by code_simp
  thus ?thesis
    by (simp only: version_digit)
qed

lemma hex_digit_variant: "one_of ''89abAB'' (hex_digit ((128 + m mod 64) div 16))"
proof -
  have "list_all (\<lambda>k. one_of ''89abAB'' (hex_digit k)) [8, 9, 10, 11]"
    by code_simp
  thus ?thesis
    using variant_digit [of m] by (simp only: list_all_iff)
qed

lemma uuid_v4_list:
  "uuid_v4 rnds =
     (let b = uuid_v4_octet rnds; d = (\<lambda>i. hex_digit (b i div 16)); e = (\<lambda>i. hex_digit (b i mod 16))
      in [d 0, e 0, d 1, e 1, d 2, e 2, d 3, e 3, of_char CHR ''-'',
          d 4, e 4, d 5, e 5, of_char CHR ''-'',
          d 6, e 6, d 7, e 7, of_char CHR ''-'',
          d 8, e 8, d 9, e 9, of_char CHR ''-'',
          d 10, e 10, d 11, e 11, d 12, e 12, d 13, e 13, d 14, e 14, d 15, e 15])"
  by (simp add: uuid_v4_def Let_def octet_hex_def lit_def)

lemma uuid_v4_groups:
  "uuid_groups (one_of ''0123456789abcdefABCDEF'') (one_of ''12345678'') (one_of ''89abAB'')
          (uuid_v4 rnds)"
proof -
  have six: "hex_digit (uuid_v4_octet rnds 6 div 16) = hex_digit ((64 + unat (rnds 6) mod 16) div 16)"
    by (simp add: uuid_v4_octet_def)
  have eight: "hex_digit (uuid_v4_octet rnds 8 div 16) = hex_digit ((128 + unat (rnds 8) mod 64) div 16)"
    by (simp add: uuid_v4_octet_def)
  show ?thesis
    unfolding uuid_v4_list Let_def uuid_groups_def
    by (simp add: hex_digit_hex six eight hex_digit_version hex_digit_variant
        del: of_char_Char)
qed

lemma uuid_v4_valid: "uuid_validate (uuid_v4 rnds)"
  using uuid_v4_groups [of rnds] by (simp only: uuid_validate_def simp_thms)

lemma SupplierId_generate_accepts:
  assumes "uuidValidate uuidv4"
  shows "SupplierId_generate uuidValidate uuidv4 = Inr \<lparr>sid_value = uuidv4\<rparr>
         \<and> SupplierId_ctor uuidValidate uuidv4 = Inr \<lparr>sid_value = uuidv4\<rparr>"
  using assms
  by (simp add: SupplierId_generate_def SupplierId_ctor_def generateUUID_def isValidUUID_def)

text \<open>
  C9. Whatever random octets the generator draws, \<open>SupplierId.generate()\<close> raises nothing
  and returns an identifier whose value is the generated UUID, and the SupplierId
  constructor, given that value, raises nothing and returns the same identifier.
\<close>

theorem SupplierId_generate_roundtrip:
  "\<exists>s. SupplierId_generate uuid_validate (uuid_v4 rnds) = Inr s
       \<and> sid_value s = uuid_v4 rnds
       \<and> SupplierId_ctor uuid_validate (sid_value s) = Inr s"
  using SupplierId_generate_accepts [of uuid_validate "uuid_v4 rnds"] uuid_v4_valid [of rnds]
  by simp

theorem SupplierId_generate_roundtrip_witness:
  "uuid_v4 (\<lambda>i. 0x5a) = lit ''5a5a5a5a-5a5a-4a5a-9a5a-5a5a5a5a5a5a''
   \<and> SupplierId_generate uuid_validate (uuid_v4 (\<lambda>i. 0x5a))
       = Inr \<lparr>sid_value = lit ''5a5a5a5a-5a5a-4a5a-9a5a-5a5a5a5a5a5a''\<rparr>
   \<and> SupplierId_ctor uuid_validate (lit ''5a5a5a5a-5a5a-4a5a-9a5a-5a5a5a5a5a5a'')
       = Inr \<lparr>sid_value = lit ''5a5a5a5a-5a5a-4a5a-9a5a-5a5a5a5a5a5a''\<rparr>"
proof -
  have v: "uuid_v4 (\<lambda>i. 0x5a) = lit ''5a5a5a5a-5a5a-4a5a-9a5a-5a5a5a5a5a5a''"
    by code_simp
  from SupplierId_generate_roundtrip [of "\<lambda>i. 0x5a"] obtain s
    where g: "SupplierId_generate uuid_validate (uuid_v4 (\<lambda>i. 0x5a)) = Inr s"
      and s: "sid_value s = uuid_v4 (\<lambda>i. 0x5a)"
      and c: "SupplierId_ctor uuid_validate (sid_value s) = Inr s"
    by blast
  from s have "s = \<lparr>sid_value = uuid_v4 (\<lambda>i. 0x5a)\<rparr>"
    by (cases s) simp
  hence s': "s = \<lparr>sid_value = lit ''5a5a5a5a-5a5a-4a5a-9a5a-5a5a5a5a5a5a''\<rparr>"
    by (simp only: v)
  have g': "SupplierId_generate uuid_validate (uuid_v4 (\<lambda>i. 0x5a))
       = Inr \<lparr>sid_value = lit ''5a5a5a5a-5a5a-4a5a-9a5a-5a5a5a5a5a5a''\<rparr>"
    using g by (simp only: s')
  have "SupplierId_ctor uuid_validate (sid_value \<lparr>sid_value = lit ''5a5a5a5a-5a5a-4a5a-9a5a-5a5a5a5a5a5a''\<rparr>)
       = Inr \<lparr>sid_value = lit ''5a5a5a5a-5a5a-4a5a-9a5a-5a5a5a5a5a5a''\<rparr>"
    using c by (simp only: s')
  hence c': "SupplierId_ctor uuid_validate (lit ''5a5a5a5a-5a5a-4a5a-9a5a-5a5a5a5a5a5a'')
       = Inr \<lparr>sid_value = lit ''5a5a5a5a-5a5a-4a5a-9a5a-5a5a5a5a5a5a''\<rparr>"
    by simp
  show ?thesis
    using v g' c' by (intro conjI)
qed

section \<open>Supplier\<close>

lemma instanceof_Money_js_not: "instanceof_Money (js_not v) = False"
  by (simp add: js_not_def)

text \<open>
  With a valid id and name and a contact email that is absent, \<open>null\<close> or valid, the
  constructor succeeds whatever \<open>lastOrderTotalPrice\<close> is.
\<close>

lemma Supplier_ctor_price_unchecked:
  assumes "2 \<le> length n" and "length n \<le> 100"
    and "e = JUndefined \<or> e = JNull \<or> (\<exists>a. e = JStr a \<and> isValidEmail a)"
  shows "Supplier_ctor \<lparr>arg_id = JSupplierId i, arg_name = JStr n, arg_contactEmail = e,
                         arg_lastOrderTotalPrice = v\<rparr>
         = Inr \<lparr>supplier_id = i, supplier_name = n, supplier_contactEmail = default_null e,
                 supplier_lastOrderTotalPrice = default_null v\<rparr>"
  using assms
  by (auto simp add: Supplier_ctor_def Let_def instanceof_Money_js_not default_null_def)

text \<open>
  C1. The constructor is given a valid id, a valid name, no contact email, and the string
  \<open>not money\<close> as \<open>lastOrderTotalPrice\<close>: it raises nothing and stores the string.
\<close>

theorem Supplier_ctor_accepts_string_price:
  "Supplier_ctor
     \<lparr>arg_id = JSupplierId \<lparr>sid_value = lit ''550e8400-e29b-41d4-a716-446655440000''\<rparr>,
      arg_name = JStr (lit ''Acme Corp''), arg_contactEmail = JUndefined,
      arg_lastOrderTotalPrice = JStr (lit ''not money'')\<rparr>
   = Inr \<lparr>supplier_id = \<lparr>sid_value = lit ''550e8400-e29b-41d4-a716-446655440000''\<rparr>,
           supplier_name = lit ''Acme Corp'', supplier_contactEmail = JNull,
           supplier_lastOrderTotalPrice = JStr (lit ''not money'')\<rparr>"
  by (simp add: Supplier_ctor_def Let_def instanceof_Money_js_not default_null_def lit_def)

text \<open>
  C2. Assigning any value to \<open>lastOrderTotalPrice\<close> raises nothing, stores the value, and
  the getter returns it afterwards.
\<close>

theorem set_lastOrderTotalPrice_accepts_all:
  "set_lastOrderTotalPrice this v = (this\<lparr>supplier_lastOrderTotalPrice := v\<rparr>, None)
   \<and> get_lastOrderTotalPrice (fst (set_lastOrderTotalPrice this v)) = v"
  by (simp add: set_lastOrderTotalPrice_def instanceof_Money_js_not get_lastOrderTotalPrice_def)

theorem set_lastOrderTotalPrice_accepts_all_witness:
  "snd (set_lastOrderTotalPrice
          \<lparr>supplier_id = \<lparr>sid_value = lit ''550e8400-e29b-41d4-a716-446655440000''\<rparr>,
           supplier_name = lit ''Acme Corp'', supplier_contactEmail = JNull,
           supplier_lastOrderTotalPrice = JNull\<rparr> (JNum (Finite 5))) = None
   \<and> get_lastOrderTotalPrice (fst (set_lastOrderTotalPrice
          \<lparr>supplier_id = \<lparr>sid_value = lit ''550e8400-e29b-41d4-a716-446655440000''\<rparr>,
           supplier_name = lit ''Acme Corp'', supplier_contactEmail = JNull,
           supplier_lastOrderTotalPrice = JNull\<rparr> (JNum (Finite 5)))) = JNum (Finite 5)"
proof -
  let ?s = "\<lparr>supplier_id = \<lparr>sid_value = lit ''550e8400-e29b-41d4-a716-446655440000''\<rparr>,
             supplier_name = lit ''Acme Corp'', supplier_contactEmail = JNull,
             supplier_lastOrderTotalPrice = JNull\<rparr>"
  note t = set_lastOrderTotalPrice_accepts_all [of ?s "JNum (Finite 5)"]
  have "snd (set_lastOrderTotalPrice ?s (JNum (Finite 5))) = None"
    using t [THEN conjunct1] by (simp only: snd_conv)
  thus ?thesis
    using t [THEN conjunct2] by (rule conjI)
qed

text \<open>
  C3. Assigning \<open>null\<close> or a string that is not a syntactically valid email to
  \<open>contactEmail\<close> raises a ValidationError and leaves the object as it was; assigning a
  syntactically valid email string raises nothing, and the getter returns that string
  afterwards. The constructor, given \<open>null\<close> as the contact email with a valid id and name,
  succeeds and the getter returns \<open>null\<close>.
\<close>

theorem set_contactEmail_validates:
  "set_contactEmail ToString this JNull
     = (this, Some (ValidationError (lit ''contactEmail must be a valid email address'')))
   \<and> (\<not> isValidEmail e \<longrightarrow>
        set_contactEmail ToString this (JStr e)
          = (this, Some (ValidationError (lit ''contactEmail must be a valid email address''))))
   \<and> (isValidEmail e \<longrightarrow>
        set_contactEmail ToString this (JStr e) = (this\<lparr>supplier_contactEmail := JStr e\<rparr>, None)
        \<and> get_contactEmail (fst (set_contactEmail ToString this (JStr e))) = JStr e)
   \<and> (2 \<le> length n \<and> length n \<le> 100 \<longrightarrow>
        (\<exists>s. Supplier_ctor \<lparr>arg_id = JSupplierId i, arg_name = JStr n, arg_contactEmail = JNull,
                             arg_lastOrderTotalPrice = JNull\<rparr> = Inr s
             \<and> get_contactEmail s = JNull))"
  by (simp add: set_contactEmail_def regex_subject_def get_contactEmail_def Supplier_ctor_def
      Let_def default_null_def)

theorem set_contactEmail_validates_witness:
  "snd (set_contactEmail (\<lambda>v. None)
          \<lparr>supplier_id = \<lparr>sid_value = lit ''550e8400-e29b-41d4-a716-446655440000''\<rparr>, supplier_name = lit ''Acme Corp'',
           supplier_contactEmail = JNull, supplier_lastOrderTotalPrice = JNull\<rparr>
          (JStr (lit ''bad-email'')))
     = Some (ValidationError (lit ''contactEmail must be a valid email address''))
   \<and> get_contactEmail (fst (set_contactEmail (\<lambda>v. None)
          \<lparr>supplier_id = \<lparr>sid_value = lit ''550e8400-e29b-41d4-a716-446655440000''\<rparr>, supplier_name = lit ''Acme Corp'',
           supplier_contactEmail = JNull, supplier_lastOrderTotalPrice = JNull\<rparr>
          (JStr (lit ''a@b.co'')))) = JStr (lit ''a@b.co'')
   \<and> (\<exists>s. Supplier_ctor \<lparr>arg_id = JSupplierId \<lparr>sid_value = lit ''550e8400-e29b-41d4-a716-446655440000''\<rparr>,
                          arg_name = JStr (lit ''Acme Corp''), arg_contactEmail = JNull,
                          arg_lastOrderTotalPrice = JNull\<rparr> = Inr s
          \<and> get_contactEmail s = JNull)"
proof -
  let ?s = "\<lparr>supplier_id = \<lparr>sid_value = lit ''550e8400-e29b-41d4-a716-446655440000''\<rparr>, supplier_name = lit ''Acme Corp'',
             supplier_contactEmail = JNull, supplier_lastOrderTotalPrice = JNull\<rparr>"
  have bad: "\<not> isValidEmail (lit ''bad-email'')"
    by code_simp
  have good: "isValidEmail (lit ''a@b.co'')"
    by code_simp
  have len: "2 \<le> length (lit ''Acme Corp'') \<and> length (lit ''Acme Corp'') \<le> 100"
    by (simp add: lit_def)
  note t1 = set_contactEmail_validates
    [of "\<lambda>v. None" ?s "lit ''bad-email''" "lit ''Acme Corp''" "\<lparr>sid_value = lit ''550e8400-e29b-41d4-a716-446655440000''\<rparr>"]
  note t2 = set_contactEmail_validates
    [of "\<lambda>v. None" ?s "lit ''a@b.co''" "lit ''Acme Corp''" "\<lparr>sid_value = lit ''550e8400-e29b-41d4-a716-446655440000''\<rparr>"]
  have "set_contactEmail (\<lambda>v. None) ?s (JStr (lit ''bad-email''))
          = (?s, Some (ValidationError (lit ''contactEmail must be a valid email address'')))"
    using t1 bad by blast
  hence c1: "snd (set_contactEmail (\<lambda>v. None) ?s (JStr (lit ''bad-email'')))
          = Some (ValidationError (lit ''contactEmail must be a valid email address''))"
    by (simp only: snd_conv)
  have c2: "get_contactEmail (fst (set_contactEmail (\<lambda>v. None) ?s (JStr (lit ''a@b.co''))))
          = JStr (lit ''a@b.co'')"
    using t2 good by blast
  have c3: "\<exists>s. Supplier_ctor \<lparr>arg_id = JSupplierId \<lparr>sid_value = lit ''550e8400-e29b-41d4-a716-446655440000''\<rparr>,
                          arg_name = JStr (lit ''Acme Corp''), arg_contactEmail = JNull,
                          arg_lastOrderTotalPrice = JNull\<rparr> = Inr s
          \<and> get_contactEmail s = JNull"
    using t2 len by blast
  show ?thesis
    using c1 c2 c3 by (intro conjI)
qed

lemma set_contactEmail_frame:
  "supplier_id (fst (set_contactEmail ToString this v)) = supplier_id this
   \<and> supplier_name (fst (set_contactEmail ToString this v)) = supplier_name this
   \<and> supplier_lastOrderTotalPrice (fst (set_contactEmail ToString this v))
       = supplier_lastOrderTotalPrice this"
  by (simp add: set_contactEmail_def split: option.splits)

lemma set_contactEmail_raise_unchanged:
  "snd (set_contactEmail ToString this v) \<noteq> None \<Longrightarrow> fst (set_contactEmail ToString this v) = this"
  by (simp add: set_contactEmail_def split: option.splits if_splits)

lemma set_lastOrderTotalPrice_frame:
  "supplier_id (fst (set_lastOrderTotalPrice this v)) = supplier_id this
   \<and> supplier_name (fst (set_lastOrderTotalPrice this v)) = supplier_name this
   \<and> supplier_contactEmail (fst (set_lastOrderTotalPrice this v)) = supplier_contactEmail this"
  by (simp add: set_lastOrderTotalPrice_def)

lemma call_setter_frame:
  "supplier_id (call_setter ToString this c) = supplier_id this
   \<and> supplier_name (call_setter ToString this c) = supplier_name this"
  by (cases c) (simp_all add: set_contactEmail_frame set_lastOrderTotalPrice_frame)

lemma call_setters_frame:
  "supplier_id (call_setters ToString this calls) = supplier_id this
   \<and> supplier_name (call_setters ToString this calls) = supplier_name this"
  unfolding call_setters_def
  by (induction calls arbitrary: this) (simp_all add: call_setter_frame)

lemma Supplier_ctor_fields:
  "Supplier_ctor p = Inr s \<Longrightarrow>
     arg_id p = JSupplierId (supplier_id s) \<and> arg_name p = JStr (supplier_name s)"
  by (auto simp add: Supplier_ctor_def Let_def split: jsval.splits if_splits)

text \<open>
  C10. An assignment to \<open>contactEmail\<close>, whether it raises or not, leaves id, name and
  \<open>lastOrderTotalPrice\<close> as they were, and one that raises leaves the whole object as it
  was; an assignment to \<open>lastOrderTotalPrice\<close> leaves id, name and \<open>contactEmail\<close> as they
  were; and after any sequence of assignments to the two setters of a constructed Supplier,
  the id and name getters return the id and name the constructor was given.
\<close>

theorem Supplier_setters_frame:
  "get_id (fst (set_contactEmail ToString this v)) = get_id this
   \<and> get_name (fst (set_contactEmail ToString this v)) = get_name this
   \<and> get_lastOrderTotalPrice (fst (set_contactEmail ToString this v)) = get_lastOrderTotalPrice this
   \<and> (snd (set_contactEmail ToString this v) \<noteq> None \<longrightarrow>
        fst (set_contactEmail ToString this v) = this)
   \<and> get_id (fst (set_lastOrderTotalPrice this v)) = get_id this
   \<and> get_name (fst (set_lastOrderTotalPrice this v)) = get_name this
   \<and> get_contactEmail (fst (set_lastOrderTotalPrice this v)) = get_contactEmail this
   \<and> (Supplier_ctor p = Inr s \<longrightarrow>
        arg_id p = JSupplierId (get_id (call_setters ToString s calls))
        \<and> arg_name p = JStr (get_name (call_setters ToString s calls)))"
  using set_contactEmail_frame [of ToString this v] set_lastOrderTotalPrice_frame [of this v]
    set_contactEmail_raise_unchanged [of ToString this v]
    call_setters_frame [of ToString s calls] Supplier_ctor_fields [of p s]
  by (simp add: get_id_def get_name_def get_contactEmail_def get_lastOrderTotalPrice_def)

theorem Supplier_setters_frame_witness:
  "get_name (call_setters (\<lambda>v. None)
      \<lparr>supplier_id = \<lparr>sid_value = lit ''550e8400-e29b-41d4-a716-446655440000''\<rparr>, supplier_name = lit ''Acme Corp'',
       supplier_contactEmail = JNull, supplier_lastOrderTotalPrice = JNull\<rparr>
      [SetContactEmail (JStr (lit ''bad-email'')), SetLastOrderTotalPrice (JObject 0),
       SetContactEmail (JStr (lit ''a@b.co''))]) = lit ''Acme Corp''
   \<and> get_id (call_setters (\<lambda>v. None)
      \<lparr>supplier_id = \<lparr>sid_value = lit ''550e8400-e29b-41d4-a716-446655440000''\<rparr>, supplier_name = lit ''Acme Corp'',
       supplier_contactEmail = JNull, supplier_lastOrderTotalPrice = JNull\<rparr>
      [SetContactEmail (JStr (lit ''bad-email'')), SetLastOrderTotalPrice (JObject 0),
       SetContactEmail (JStr (lit ''a@b.co''))]) = \<lparr>sid_value = lit ''550e8400-e29b-41d4-a716-446655440000''\<rparr>"
proof -
  let ?p = "\<lparr>arg_id = JSupplierId \<lparr>sid_value = lit ''550e8400-e29b-41d4-a716-446655440000''\<rparr>, arg_name = JStr (lit ''Acme Corp''),
             arg_contactEmail = JUndefined, arg_lastOrderTotalPrice = JUndefined\<rparr>"
  let ?s = "\<lparr>supplier_id = \<lparr>sid_value = lit ''550e8400-e29b-41d4-a716-446655440000''\<rparr>, supplier_name = lit ''Acme Corp'',
             supplier_contactEmail = JNull, supplier_lastOrderTotalPrice = JNull\<rparr>"
  let ?calls = "[SetContactEmail (JStr (lit ''bad-email'')), SetLastOrderTotalPrice (JObject 0),
                 SetContactEmail (JStr (lit ''a@b.co''))]"
  have ctor: "Supplier_ctor ?p = Inr ?s"
    by (simp add: Supplier_ctor_def Let_def default_null_def js_not_def lit_def)
  have "arg_id ?p = JSupplierId (get_id (call_setters (\<lambda>v. None) ?s ?calls))
        \<and> arg_name ?p = JStr (get_name (call_setters (\<lambda>v. None) ?s ?calls))"
    using Supplier_setters_frame [of "\<lambda>v. None" ?s JNull ?p ?s ?calls] ctor by blast
  thus ?thesis
    by simp
qed

end
